theory Spec2Isabelle
  imports Complex_Main "HOL-Library.Word" "HOL-Library.Signed_Division" "HOL-Library.Multiset"
begin

section \<open>Frames\<close>

text \<open>
  A frame is a \<^verbatim>\<open>cv::Mat\<close>: its \<^verbatim>\<open>rows\<close>, \<^verbatim>\<open>cols\<close>, the byte distance
  \<^verbatim>\<open>step[0]\<close> between two rows and the bytes \<^verbatim>\<open>ptr(0)\<close> points at. Of the
  library only what \<^verbatim>\<open>capture_bridge.cpp\<close> observes is modelled: \<^verbatim>\<open>empty()\<close> holds of
  a header without data or without elements.
\<close>

type_synonym byte = "8 word"

record Mat =
  rows :: int
  cols :: int
  step :: nat
  pixels :: "byte list"

definition empty_Mat :: "Mat \<Rightarrow> bool" where
  "empty_Mat m = (pixels m = [] \<or> rows m * cols m = 0)"

section \<open>Triple buffer\<close>

text \<open>
  \<^verbatim>\<open>struct TripleBuffer\<close>: three frames and the two atomic indices. The C++ \<^verbatim>\<open>int\<close>
  indices are integers, which stay between \<open>-1\<close> and \<open>2\<close> (\<open>relay_inv\<close> below), far from
  overflow; \<^verbatim>\<open>%\<close> truncates towards zero, which is \<open>smod\<close>. Each member function is
  one atomic step of the model.
\<close>

record TripleBuffer =
  bufs :: "Mat list"
  latest :: int
  writing :: int

definition blank_Mat :: Mat where
  "blank_Mat = \<lparr>rows = 0, cols = 0, step = 0, pixels = []\<rparr>"

definition init_TripleBuffer :: TripleBuffer where
  "init_TripleBuffer = \<lparr>bufs = [blank_Mat, blank_Mat, blank_Mat], latest = - 1, writing = 0\<rparr>"

definition commitWrite :: "TripleBuffer \<Rightarrow> TripleBuffer" where
  "commitWrite tb = (let w = writing tb in tb\<lparr>latest := w, writing := (w + 1) smod 3\<rparr>)"

text \<open>The two stores of \<^verbatim>\<open>commitWrite\<close>, in the order of the source.\<close>

definition store_latest :: "int \<Rightarrow> TripleBuffer \<Rightarrow> TripleBuffer" where
  "store_latest w tb = tb\<lparr>latest := w\<rparr>"

definition store_writing :: "int \<Rightarrow> TripleBuffer \<Rightarrow> TripleBuffer" where
  "store_writing w tb = tb\<lparr>writing := (w + 1) smod 3\<rparr>"

text \<open>
  \<^verbatim>\<open>tryRead\<close> returns a pointer into \<^verbatim>\<open>bufs\<close> or \<^verbatim>\<open>nullptr\<close>: the model returns the
  slot number, and \<open>deref\<close> reads the frame the pointer designates.
\<close>

definition tryRead :: "TripleBuffer \<Rightarrow> nat option" where
  "tryRead tb = (let idx = latest tb in if idx \<ge> 0 then Some (nat idx) else None)"

definition deref :: "TripleBuffer \<Rightarrow> nat \<Rightarrow> Mat" where
  "deref tb i = bufs tb ! i"

definition readFrame :: "TripleBuffer \<Rightarrow> Mat option" where
  "readFrame tb = map_option (deref tb) (tryRead tb)"

text \<open>
  The producer's store into the slot it is filling: \<^verbatim>\<open>cap_.read(tb_.bufs[w])\<close> with
  \<^verbatim>\<open>w\<close> loaded from \<^verbatim>\<open>writing\<close>. The adapter may store any data, at any stage of
  completion.
\<close>

definition fillSlot :: "Mat \<Rightarrow> TripleBuffer \<Rightarrow> TripleBuffer" where
  "fillSlot m tb = tb\<lparr>bufs := (bufs tb)[nat (writing tb) := m]\<rparr>"

datatype relay_op = OpFill Mat | OpCommit | OpTryRead

fun exec_op :: "relay_op \<Rightarrow> TripleBuffer \<Rightarrow> TripleBuffer" where
  "exec_op (OpFill m) tb = fillSlot m tb"
| "exec_op OpCommit tb = commitWrite tb"
| "exec_op OpTryRead tb = tb"

fun run_ops :: "relay_op list \<Rightarrow> TripleBuffer \<Rightarrow> TripleBuffer" where
  "run_ops [] tb = tb"
| "run_ops (x # xs) tb = run_ops xs (exec_op x tb)"


text \<open>The shape every reachable relay state has.\<close>

definition relay_inv :: "TripleBuffer \<Rightarrow> bool" where
  "relay_inv tb =
     (length (bufs tb) = 3 \<and> 0 \<le> writing tb \<and> writing tb < 3 \<and> - 1 \<le> latest tb
      \<and> latest tb < 3 \<and> writing tb \<noteq> latest tb)"

section \<open>The world outside the process\<close>

text \<open>
  The renderer talks to Direct3D, the main loop to the console and the scheduler. The
  model keeps what the claims observe: the references the process holds and has not yet
  released (\<open>live\<close>, one entry per reference), the identity of the next object created
  (\<open>fresh\<close>), the bytes and row pitch of each texture, and the calls made, oldest first.
  Floating-point values are taken as exact reals.
\<close>

type_synonym handle = nat

record D3D11_VIEWPORT =
  TopLeftX :: real
  TopLeftY :: real
  Width :: real
  Height :: real
  MinDepth :: real
  MaxDepth :: real

datatype message =
    CreateDeviceFailed
  | CreateSwapChainFailed
  | VSCompileError
  | PSCompileError
  | CreateTexture2DFailed int int
  | DX11InitFailed
  | SessionEnded

datatype call =
    Sleep nat
  | Cerr message
  | Cout message
  | PutText nat
  | Release handle
  | CreateTexture2D int int
  | CreateShaderResourceView handle
  | MapWriteDiscard handle
  | Unmap handle
  | RSSetViewports D3D11_VIEWPORT
  | OMSetRenderTargets "handle option"
  | ClearRenderTargetView "handle option"
  | VSSetShader "handle option"
  | PSSetShader "handle option"
  | PSSetShaderResources handle
  | PSSetSamplers "handle option"
  | IASetPrimitiveTopology
  | IASetInputLayout
  | Draw nat nat
  | Present nat nat

record World =
  live :: "handle list"
  fresh :: handle
  vram :: "handle \<Rightarrow> nat \<Rightarrow> byte"
  vpitch :: "handle \<Rightarrow> nat"
  calls :: "call list"

definition emit :: "call \<Rightarrow> World \<Rightarrow> World" where
  "emit c wd = wd\<lparr>calls := calls wd @ [c]\<rparr>"

definition acquire :: "World \<Rightarrow> handle \<times> World" where
  "acquire wd = (fresh wd, wd\<lparr>live := fresh wd # live wd, fresh := Suc (fresh wd)\<rparr>)"

definition release_ref :: "handle \<Rightarrow> World \<Rightarrow> World" where
  "release_ref p wd = emit (Release p) (wd\<lparr>live := remove1 p (live wd)\<rparr>)"

section \<open>DirectX 11 renderer\<close>

text \<open>\<^verbatim>\<open>struct DX11Renderer\<close>; a null pointer is \<open>None\<close>.\<close>

record DX11Renderer =
  device :: "handle option"
  ctx :: "handle option"
  swapChain :: "handle option"
  rtv :: "handle option"
  vs :: "handle option"
  ps :: "handle option"
  dynTex :: "handle option"
  srv :: "handle option"
  sampler :: "handle option"
  winW :: int
  winH :: int
  texW :: int
  texH :: int
  tearingOk :: bool

definition new_DX11Renderer :: DX11Renderer where
  "new_DX11Renderer =
     \<lparr>device = None, ctx = None, swapChain = None, rtv = None, vs = None, ps = None,
      dynTex = None, srv = None, sampler = None, winW = 0, winH = 0, texW = 0, texH = 0,
      tearingOk = False\<rparr>"

text \<open>
  What the device answers during one \<^verbatim>\<open>uploadFrame\<close>: whether \<^verbatim>\<open>CreateTexture2D\<close>,
  \<^verbatim>\<open>CreateShaderResourceView\<close> and \<^verbatim>\<open>Map\<close> succeed, and the mapped region
  (\<^verbatim>\<open>RowPitch\<close>, and \<^verbatim>\<open>pData\<close> with the undefined bytes a discarding map hands out).
\<close>

record upload_reply =
  tex_ok :: bool
  srv_ok :: bool
  map_ok :: bool
  RowPitch :: nat
  pData :: "nat \<Rightarrow> byte"

definition release_srv :: "DX11Renderer \<times> World \<Rightarrow> DX11Renderer \<times> World" where
  "release_srv s =
     (case srv (fst s) of
        Some p \<Rightarrow> ((fst s)\<lparr>srv := None\<rparr>, release_ref p (snd s))
      | None \<Rightarrow> s)"

definition release_dynTex :: "DX11Renderer \<times> World \<Rightarrow> DX11Renderer \<times> World" where
  "release_dynTex s =
     (case dynTex (fst s) of
        Some p \<Rightarrow> ((fst s)\<lparr>dynTex := None\<rparr>, release_ref p (snd s))
      | None \<Rightarrow> s)"

definition create_srv :: "bool \<Rightarrow> handle \<Rightarrow> DX11Renderer \<times> World \<Rightarrow> DX11Renderer \<times> World" where
  "create_srv ok t s =
     (let wd = emit (CreateShaderResourceView t) (snd s)
      in if ok then (let (v, wd') = acquire wd in ((fst s)\<lparr>srv := Some v\<rparr>, wd'))
         else (fst s, wd))"

definition ensureTexture ::
  "upload_reply \<Rightarrow> int \<Rightarrow> int \<Rightarrow> DX11Renderer \<times> World \<Rightarrow> DX11Renderer \<times> World" where
  "ensureTexture g w h s =
     (if texW (fst s) = w \<and> texH (fst s) = h then s
      else
        let s1 = release_dynTex (release_srv s);
            wd = emit (CreateTexture2D w h) (snd s1)
        in if \<not> tex_ok g then (fst s1, emit (Cerr (CreateTexture2DFailed w h)) wd)
           else
             let (t, wd') = acquire wd;
                 s2 = create_srv (srv_ok g) t ((fst s1)\<lparr>dynTex := Some t\<rparr>, wd')
             in ((fst s2)\<lparr>texW := w, texH := h\<rparr>, snd s2))"

text \<open>
  The copy loop of \<^verbatim>\<open>uploadFrame\<close>. Row \<open>y\<close> of the source is the \<open>3 * cols\<close> bytes at
  \<^verbatim>\<open>src + y * srcStep\<close>; \<^verbatim>\<open>cv::COLOR_BGR2BGRA\<close> appends the alpha byte 255 to each
  pixel; \<^verbatim>\<open>memcpy\<close> stores \<open>cols * 4\<close> bytes at \<^verbatim>\<open>dst + y * dstPitch\<close>.
\<close>

definition srcRow :: "Mat \<Rightarrow> nat \<Rightarrow> byte list" where
  "srcRow frame y = take (3 * nat (cols frame)) (drop (y * step frame) (pixels frame))"

fun cvtColor_BGR2BGRA :: "byte list \<Rightarrow> byte list" where
  "cvtColor_BGR2BGRA (b # g # r # xs) = b # g # r # 255 # cvtColor_BGR2BGRA xs"
| "cvtColor_BGR2BGRA xs = []"

definition memcpy :: "(nat \<Rightarrow> byte) \<Rightarrow> nat \<Rightarrow> byte list \<Rightarrow> nat \<Rightarrow> nat \<Rightarrow> byte" where
  "memcpy dst off src n = (\<lambda>a. if off \<le> a \<and> a < off + n then src ! (a - off) else dst a)"

definition copy_row :: "Mat \<Rightarrow> nat \<Rightarrow> (nat \<Rightarrow> byte) \<Rightarrow> nat \<Rightarrow> nat \<Rightarrow> byte" where
  "copy_row frame dstPitch dst y =
     memcpy dst (y * dstPitch) (cvtColor_BGR2BGRA (srcRow frame y)) (nat (cols frame) * 4)"

definition upload_rows :: "Mat \<Rightarrow> nat \<Rightarrow> (nat \<Rightarrow> byte) \<Rightarrow> nat \<Rightarrow> byte" where
  "upload_rows frame dstPitch dst = foldl (copy_row frame dstPitch) dst [0..<nat (rows frame)]"

definition uploadFrame ::
  "upload_reply \<Rightarrow> Mat \<Rightarrow> DX11Renderer \<times> World \<Rightarrow> DX11Renderer \<times> World" where
  "uploadFrame g frame s =
     (let s1 = ensureTexture g (cols frame) (rows frame) s
      in case dynTex (fst s1) of
           None \<Rightarrow> s1
         | Some t \<Rightarrow>
             let wd = emit (MapWriteDiscard t) (snd s1)
             in if \<not> map_ok g then (fst s1, wd)
                else (fst s1,
                      emit (Unmap t)
                        (wd\<lparr>vram := (vram wd)(t := upload_rows frame (RowPitch g) (pData g)),
                            vpitch := (vpitch wd)(t := RowPitch g)\<rparr>)))"

text \<open>
  The pixel shader \<^verbatim>\<open>s_psCode\<close>. The texture and the swap chain both have the format
  \<^verbatim>\<open>DXGI_FORMAT_R8G8B8A8_UNORM\<close>: byte \<open>k\<close> of a texel is channel \<open>k\<close> of \<^verbatim>\<open>r, g, b, a\<close>,
  read as \<open>v / 255\<close> and stored back as the nearest multiple of \<open>1 / 255\<close> in \<open>[0, 1]\<close>.
\<close>

datatype float4 = float4 (c_r: real) (c_g: real) (c_b: real) (c_a: real)

definition ps_main :: "float4 \<Rightarrow> float4" where
  "ps_main c = float4 (c_b c) (c_g c) (c_r c) 1"

definition unorm8 :: "byte \<Rightarrow> real" where
  "unorm8 v = real (unat v) / 255"

definition to_unorm8 :: "real \<Rightarrow> byte" where
  "to_unorm8 v = word_of_nat (nat \<lfloor>max 0 (min 1 v) * 255 + 1 / 2\<rfloor>)"

definition load_texel :: "(nat \<Rightarrow> byte) \<Rightarrow> nat \<Rightarrow> nat \<Rightarrow> nat \<Rightarrow> float4" where
  "load_texel mem pitch x y =
     (let a = y * pitch + 4 * x
      in float4 (unorm8 (mem a)) (unorm8 (mem (a + 1))) (unorm8 (mem (a + 2)))
           (unorm8 (mem (a + 3))))"

text \<open>The bytes of one presented pixel, in the order red, green, blue, alpha.\<close>

definition store_pixel :: "float4 \<Rightarrow> byte list" where
  "store_pixel c = [to_unorm8 (c_r c), to_unorm8 (c_g c), to_unorm8 (c_b c), to_unorm8 (c_a c)]"

definition present_texel :: "World \<Rightarrow> handle \<Rightarrow> nat \<Rightarrow> nat \<Rightarrow> byte list" where
  "present_texel wd t x y = store_pixel (ps_main (load_texel (vram wd t) (vpitch wd t) x y))"

text \<open>The source pixel at column \<open>x\<close> of row \<open>y\<close>, in memory order: blue, green, red.\<close>

definition src_pixel :: "Mat \<Rightarrow> nat \<Rightarrow> nat \<Rightarrow> byte list" where
  "src_pixel frame x y = take 3 (drop (y * step frame + 3 * x) (pixels frame))"

text \<open>\<^verbatim>\<open>render\<close>: the letterboxed viewport, then the draw and the present.\<close>

definition letterbox :: "DX11Renderer \<Rightarrow> D3D11_VIEWPORT" where
  "letterbox r =
     (let scaleX = real_of_int (winW r) / real_of_int (texW r);
          scaleY = real_of_int (winH r) / real_of_int (texH r);
          scale = min scaleX scaleY;
          vpW = real_of_int (texW r) * scale;
          vpH = real_of_int (texH r) * scale;
          vpX = (real_of_int (winW r) - vpW) * 0.5;
          vpY = (real_of_int (winH r) - vpH) * 0.5
      in \<lparr>TopLeftX = vpX, TopLeftY = vpY, Width = vpW, Height = vpH, MinDepth = 0,
          MaxDepth = 1\<rparr>)"

definition DXGI_PRESENT_ALLOW_TEARING :: nat where
  "DXGI_PRESENT_ALLOW_TEARING = 512"

definition render :: "bool \<Rightarrow> DX11Renderer \<times> World \<Rightarrow> DX11Renderer \<times> World" where
  "render vsync s =
     (case srv (fst s) of
        None \<Rightarrow> s
      | Some v \<Rightarrow>
          let r = fst s;
              flags = (if \<not> vsync \<and> tearingOk r then DXGI_PRESENT_ALLOW_TEARING else 0)
          in (r, foldl (\<lambda>wd c. emit c wd) (snd s)
                   [RSSetViewports (letterbox r), OMSetRenderTargets (rtv r),
                    ClearRenderTargetView (rtv r), VSSetShader (vs r), PSSetShader (ps r),
                    PSSetShaderResources v, PSSetSamplers (sampler r), IASetPrimitiveTopology,
                    IASetInputLayout, Draw 3 0, Present (if vsync then 1 else 0) flags]))"

section \<open>Capture thread\<close>

text \<open>
  One pass of the loop in \<^verbatim>\<open>VideoStream::captureLoop\<close>. The adapter's answer to
  \<^verbatim>\<open>cap_.read\<close> is its return value and the frame it leaves in the slot it was given.
  The loop runs once for every answer received while \<^verbatim>\<open>running_\<close> held.
\<close>

type_synonym cap_read = "bool \<times> Mat"

definition captureIter :: "cap_read \<Rightarrow> TripleBuffer \<times> World \<Rightarrow> TripleBuffer \<times> World" where
  "captureIter rd s =
     (let w = writing (fst s);
          ok = fst rd;
          tb1 = fillSlot (snd rd) (fst s)
      in if ok \<and> \<not> empty_Mat (bufs tb1 ! nat w) then (commitWrite tb1, snd s) else (tb1, snd s))"

definition captureLoop ::
  "bool \<Rightarrow> cap_read list \<Rightarrow> TripleBuffer \<times> World \<Rightarrow> TripleBuffer \<times> World" where
  "captureLoop mmcss_ok rds s =
     (let (mmh, wd) = (if mmcss_ok then map_prod Some id (acquire (snd s)) else (None, snd s));
          s1 = foldl (\<lambda>st rd. captureIter rd st) (fst s, wd) rds
      in case mmh of Some p \<Rightarrow> (fst s1, release_ref p (snd s1)) | None \<Rightarrow> s1)"

section \<open>Main loop\<close>

text \<open>
  \<^verbatim>\<open>drawFPS\<close> draws into the frame it is handed, with \<^verbatim>\<open>cv::putText\<close>; what the library
  leaves in the frame is the function \<open>ink\<close>.
\<close>

definition drawFPS ::
  "(Mat \<Rightarrow> Mat) \<Rightarrow> nat option \<Rightarrow> TripleBuffer \<times> World \<Rightarrow> TripleBuffer \<times> World" where
  "drawFPS ink frame s =
     (case frame of
        None \<Rightarrow> s
      | Some i \<Rightarrow>
          if empty_Mat (deref (fst s) i) then s
          else ((fst s)\<lparr>bufs := (bufs (fst s))[i := ink (deref (fst s) i)]\<rparr>,
                emit (PutText i) (snd s)))"

text \<open>\<^verbatim>\<open>KeyState::poll\<close>: the rising edge, and the new \<^verbatim>\<open>wasDown\<close>.\<close>

definition poll :: "bool \<Rightarrow> bool \<Rightarrow> bool \<times> bool" where
  "poll isDown wasDown = (isDown \<and> \<not> wasDown, isDown)"

text \<open>
  What one pass of the main loop receives: whether a \<^verbatim>\<open>WM_QUIT\<close> or a \<^verbatim>\<open>WM_CLOSE\<close> was
  pending, the state of the three bound keys, what \<^verbatim>\<open>cv::putText\<close> would draw, and the
  device's answers to the upload.
\<close>

record tick =
  wm_quit :: bool
  wm_close :: bool
  fpsKey :: bool
  vsyncKey :: bool
  exitKey :: bool
  putText :: "Mat \<Rightarrow> Mat"
  gpu :: upload_reply

record Session =
  tb :: TripleBuffer
  dx :: DX11Renderer
  world :: World
  g_running :: bool
  g_showFPS :: bool
  g_vsync :: bool
  ksFPS :: bool
  ksVSync :: bool
  ksExit :: bool

definition pump_messages :: "tick \<Rightarrow> Session \<Rightarrow> Session" where
  "pump_messages t s = (if wm_quit t \<or> wm_close t then s\<lparr>g_running := False\<rparr> else s)"

definition poll_keys :: "tick \<Rightarrow> Session \<Rightarrow> Session" where
  "poll_keys t s =
     (let (e1, k1) = poll (fpsKey t) (ksFPS s);
          s1 = (if e1 then s\<lparr>ksFPS := k1, g_showFPS := \<not> g_showFPS s\<rparr> else s\<lparr>ksFPS := k1\<rparr>);
          (e2, k2) = poll (vsyncKey t) (ksVSync s1);
          s2 = (if e2 then s1\<lparr>ksVSync := k2, g_vsync := \<not> g_vsync s1\<rparr> else s1\<lparr>ksVSync := k2\<rparr>);
          (e3, k3) = poll (exitKey t) (ksExit s2)
      in if e3 then s2\<lparr>ksExit := k3, g_running := False\<rparr> else s2\<lparr>ksExit := k3\<rparr>)"

definition show_frame :: "tick \<Rightarrow> Session \<Rightarrow> Session" where
  "show_frame t s =
     (let framePtr = tryRead (tb s)
      in case framePtr of
           None \<Rightarrow> s\<lparr>world := emit (Sleep 1) (world s)\<rparr>
         | Some i \<Rightarrow>
             if empty_Mat (deref (tb s) i) then s\<lparr>world := emit (Sleep 1) (world s)\<rparr>
             else
               let s1 = (if g_showFPS s
                         then (let (b, wd) = drawFPS (putText t) framePtr (tb s, world s)
                               in s\<lparr>tb := b, world := wd\<rparr>)
                         else s);
                   (r, wd) = render (g_vsync s1)
                               (uploadFrame (gpu t) (deref (tb s1) i) (dx s1, world s1))
               in s1\<lparr>dx := r, world := wd\<rparr>)"

definition main_iter :: "tick \<Rightarrow> Session \<Rightarrow> Session" where
  "main_iter t s = show_frame t (poll_keys t (pump_messages t s))"

text \<open>
  The two threads interleave: an event is one pass of the capture loop or one pass of
  the main loop, each taken as one step. The clock and the frame rate computed from it
  only feed the text of the overlay and are left out. \<^verbatim>\<open>while (g_running)\<close> ends when the flag is found cleared; events that
  run out before that leave the loop running, which is \<open>None\<close>.
\<close>

datatype event = Captured cap_read | Iterate tick

definition capture_event :: "cap_read \<Rightarrow> Session \<Rightarrow> Session" where
  "capture_event rd s =
     (let (b, wd) = captureIter rd (tb s, world s) in s\<lparr>tb := b, world := wd\<rparr>)"

fun main_loop :: "event list \<Rightarrow> Session \<Rightarrow> Session option" where
  "main_loop [] s = (if g_running s then None else Some s)"
| "main_loop (Captured rd # es) s = main_loop es (capture_event rd s)"
| "main_loop (Iterate t # es) s =
     (if g_running s then main_loop es (main_iter t s) else Some s)"

section \<open>Initialisation and teardown\<close>

text \<open>
  What the system answers during \<^verbatim>\<open>DX11Renderer::init\<close>: which calls succeed, whether
  tearing is supported, and for each \<^verbatim>\<open>D3DCompile\<close> whether it hands back a code blob and
  whether it hands back a message blob.
\<close>

record init_reply =
  createDevice_ok :: bool
  factory5_ok :: bool
  allow_tearing :: bool
  createSwapChain_ok :: bool
  factory1_ok :: bool
  getBuffer_ok :: bool
  createRTV_ok :: bool
  vs_blob :: bool
  vs_err :: bool
  createVS_ok :: bool
  ps_blob :: bool
  ps_err :: bool
  createPS_ok :: bool
  createSampler_ok :: bool

definition acquire_if :: "bool \<Rightarrow> World \<Rightarrow> handle option \<times> World" where
  "acquire_if ok wd = (if ok then map_prod Some id (acquire wd) else (None, wd))"

definition release_opt :: "handle option \<Rightarrow> World \<Rightarrow> World" where
  "release_opt p wd = (case p of Some q \<Rightarrow> release_ref q wd | None \<Rightarrow> wd)"

definition rebuildRTV ::
  "init_reply \<Rightarrow> DX11Renderer \<times> World \<Rightarrow> bool \<times> DX11Renderer \<times> World" where
  "rebuildRTV g s =
     (let r = (fst s)\<lparr>rtv := None\<rparr>;
          wd = release_opt (rtv (fst s)) (snd s);
          (back, wd1) = acquire_if (getBuffer_ok g) wd
      in case back of
           None \<Rightarrow> (False, r, wd1)
         | Some bk \<Rightarrow>
             let (v, wd2) = acquire_if (createRTV_ok g) wd1;
                 r1 = r\<lparr>rtv := v\<rparr>
             in (rtv r1 \<noteq> None, r1, release_ref bk wd2))"

definition compileShaders ::
  "init_reply \<Rightarrow> DX11Renderer \<times> World \<Rightarrow> bool \<times> DX11Renderer \<times> World" where
  "compileShaders g s =
     (let (blob, wd1) = acquire_if (vs_blob g) (snd s);
          (err, wd2) = acquire_if (vs_err g) wd1
      in case blob of
           None \<Rightarrow> (False, fst s, release_opt err (emit (Cerr VSCompileError) wd2))
         | Some bl \<Rightarrow>
             let (v, wd3) = acquire_if (createVS_ok g) wd2;
                 r1 = (fst s)\<lparr>vs := v\<rparr>;
                 wd4 = release_ref bl wd3;
                 (blob2, wd5) = acquire_if (ps_blob g) wd4;
                 (err2, wd6) = acquire_if (ps_err g) wd5
             in (case blob2 of
                   None \<Rightarrow> (False, r1, release_opt err2 (emit (Cerr PSCompileError) wd6))
                 | Some bl2 \<Rightarrow>
                     let (p, wd7) = acquire_if (createPS_ok g) wd6
                     in (True, r1\<lparr>ps := p\<rparr>, release_ref bl2 wd7)))"

text \<open>
  The end of \<^verbatim>\<open>init\<close>, once the swap chain exists: the render target view, the shaders
  and the sampler.
\<close>

definition init_pipeline ::
  "init_reply \<Rightarrow> DX11Renderer \<times> World \<Rightarrow> bool \<times> DX11Renderer \<times> World" where
  "init_pipeline g s =
     (let (ok1, r4, wd12) = rebuildRTV g s
      in if \<not> ok1 then (False, r4, wd12)
         else
           let (ok2, r5, wd13) = compileShaders g (r4, wd12)
           in if \<not> ok2 then (False, r5, wd13)
              else
                let (sm, wd14) = acquire_if (createSampler_ok g) wd13
                in (True, r5\<lparr>sampler := sm\<rparr>, wd14))"

text \<open>\<^verbatim>\<open>DX11Renderer::init\<close>.\<close>

definition init ::
  "init_reply \<Rightarrow> int \<Rightarrow> int \<Rightarrow> DX11Renderer \<times> World \<Rightarrow> bool \<times> DX11Renderer \<times> World" where
  "init g w h s =
     (let r0 = (fst s)\<lparr>winW := w, winH := h\<rparr>
      in if \<not> createDevice_ok g then (False, r0, emit (Cerr CreateDeviceFailed) (snd s))
         else
           let (d, wd1) = acquire (snd s);
               (c, wd2) = acquire wd1;
               r1 = r0\<lparr>device := Some d, ctx := Some c\<rparr>;
               (dxgiDev, wd3) = acquire wd2;
               (adapter, wd4) = acquire wd3;
               (factory, wd5) = acquire wd4;
               wd6 = release_ref dxgiDev (release_ref adapter wd5);
               (f5, wd7) = acquire_if (factory5_ok g) wd6;
               r2 = (case f5 of Some _ \<Rightarrow> r1\<lparr>tearingOk := allow_tearing g\<rparr> | None \<Rightarrow> r1);
               wd8 = release_opt f5 wd7
           in if \<not> createSwapChain_ok g
              then (False, r2, release_ref factory (emit (Cerr CreateSwapChainFailed) wd8))
              else
                let (sc, wd9) = acquire wd8;
                    r3 = r2\<lparr>swapChain := Some sc\<rparr>;
                    (f1, wd10) = acquire_if (factory1_ok g) wd9;
                    wd11 = release_ref factory (release_opt f1 wd10)
                in init_pipeline g (r3, wd11))"

text \<open>\<^verbatim>\<open>DX11Renderer::release\<close>, in the order of the source.\<close>

definition release :: "DX11Renderer \<Rightarrow> World \<Rightarrow> World" where
  "release r wd =
     foldl (\<lambda>w p. release_opt p w) wd
       [sampler r, srv r, dynTex r, ps r, vs r, rtv r, swapChain r, ctx r, device r]"

text \<open>
  \<^verbatim>\<open>main\<close>, from the first resource it takes: \<open>enter\<close> is its start up to the choice
  of the device, \<open>open_session\<close> the capture stream and the window. The resources
  followed are those for which the program has a releasing call: the MMCSS
  registrations, the COM initialisation, the capture device and the capture thread, the
  window, and the Direct3D references. \<^verbatim>\<open>VideoStream::stop\<close> ends the thread, which reverts its own
  MMCSS registration, and releases the device; a second call finds nothing to do.
\<close>

record VideoStream =
  cap :: "handle option"
  captureThread :: "handle option"
  thread_mmh :: "handle option"

definition stop :: "VideoStream \<times> World \<Rightarrow> VideoStream \<times> World" where
  "stop s =
     (let v = fst s
      in (\<lparr>cap = None, captureThread = None, thread_mmh = None\<rparr>,
          release_opt (cap v) (release_opt (captureThread v) (release_opt (thread_mmh v) (snd s)))))"

record main_env =
  mmcss_games_ok :: bool
  deviceId :: int
  cap_open_ok :: bool
  mmcss_audio_ok :: bool
  window_ok :: bool
  screenW :: int
  screenH :: int
  init_env :: init_reply
  events :: "event list"

definition new_World :: World where
  "new_World = \<lparr>live = [], fresh = 0, vram = (\<lambda>_ _. 0), vpitch = (\<lambda>_. 0), calls = []\<rparr>"

definition enter :: "main_env \<Rightarrow> handle option \<times> handle \<times> World" where
  "enter e =
     (let (mmh, wd1) = acquire_if (mmcss_games_ok e) new_World;
          (com, wd2) = acquire wd1
      in (mmh, com, wd2))"

definition open_session :: "main_env \<Rightarrow> World \<Rightarrow> VideoStream \<times> handle option \<times> World" where
  "open_session e wd2 =
     (let (cp, wd3) = acquire_if (cap_open_ok e) wd2;
          (th, wd4) = acquire wd3;
          (tm, wd5) = acquire_if (mmcss_audio_ok e) wd4;
          (hwnd, wd6) = acquire_if (window_ok e) wd5
      in (\<lparr>cap = cp, captureThread = Some th, thread_mmh = tm\<rparr>, hwnd, wd6))"

definition main :: "main_env \<Rightarrow> (int \<times> World) option" where
  "main e =
     (let (mmh, com, wd2) = enter e
      in if deviceId e < 0 then Some (1, wd2)
         else
           let (stream, hwnd, wd6) = open_session e wd2;
               (ok, r, wd7) = init (init_env e) (screenW e) (screenH e) (new_DX11Renderer, wd6)
           in if \<not> ok
              then (let (stream1, wd8) = stop (stream, emit (Cerr DX11InitFailed) wd7)
                    in Some (1, snd (stop (stream1, wd8))))
              else
                case main_loop (events e)
                       \<lparr>tb = init_TripleBuffer, dx = r, world = wd7, g_running = True,
                        g_showFPS = False, g_vsync = False, ksFPS = False, ksVSync = False,
                        ksExit = False\<rparr> of
                  None \<Rightarrow> None
                | Some s \<Rightarrow>
                    let wd8 = release (dx s) (world s);
                        (stream1, wd9) = stop (stream, wd8);
                        wd10 = release_opt hwnd wd9;
                        wd11 = release_opt mmh wd10;
                        wd12 = emit (Cout SessionEnded) (release_ref com wd11)
                    in Some (0, snd (stop (stream1, wd12))))"

section \<open>Auxiliary notions\<close>

text \<open>A pass of the capture loop that does not publish: the read failed or left an empty frame.\<close>

definition skipped :: "cap_read \<Rightarrow> bool" where
  "skipped rd = (\<not> (fst rd \<and> \<not> empty_Mat (snd rd)))"

text \<open>A frame of one pixel, with blue 10, green 20 and red 30.\<close>

definition bgr_frame :: Mat where
  "bgr_frame = \<lparr>rows = 1, cols = 1, step = 3, pixels = [10, 20, 30]\<rparr>"

text \<open>The releases with which \<^verbatim>\<open>ensureTexture\<close> destroys the old view and texture.\<close>

definition old_releases :: "DX11Renderer \<Rightarrow> call list" where
  "old_releases r =
     (case srv r of Some p \<Rightarrow> [Release p] | None \<Rightarrow> [])
     @ (case dynTex r of Some p \<Rightarrow> [Release p] | None \<Rightarrow> [])"

text \<open>
  Sample inputs: a black frame of a given size, a device that answers, and a renderer
  that holds a 1920 by 1080 texture (reference 0) and its view (reference 1) for a
  1280 by 1024 output.
\<close>

definition black_frame :: "int \<Rightarrow> int \<Rightarrow> Mat" where
  "black_frame w h =
     \<lparr>rows = h, cols = w, step = 3 * nat w, pixels = replicate (3 * nat w * nat h) 0\<rparr>"

definition device_reply :: "bool \<Rightarrow> nat \<Rightarrow> upload_reply" where
  "device_reply ok pitch =
     \<lparr>tex_ok = ok, srv_ok = True, map_ok = True, RowPitch = pitch, pData = (\<lambda>_. 0)\<rparr>"

definition hd_renderer :: DX11Renderer where
  "hd_renderer =
     new_DX11Renderer\<lparr>dynTex := Some 0, srv := Some 1, winW := 1280, winH := 1024,
       texW := 1920, texH := 1080\<rparr>"

definition hd_world :: World where
  "hd_world = new_World\<lparr>live := [1, 0], fresh := 2\<rparr>"

text \<open>The test of the main loop before it sleeps: \<^verbatim>\<open>tryRead\<close> gave no frame, or an empty one.\<close>

definition no_frame :: "TripleBuffer \<Rightarrow> bool" where
  "no_frame b = (case readFrame b of None \<Rightarrow> True | Some m \<Rightarrow> empty_Mat m)"

text \<open>The session after the message pump and the key polls of one pass.\<close>

definition inputs_done :: "tick \<Rightarrow> Session \<Rightarrow> Session" where
  "inputs_done t s = poll_keys t (pump_messages t s)"

text \<open>
  Sample inputs for the main loop. \<open>stamp\<close> stands for what \<^verbatim>\<open>cv::putText\<close> leaves in a
  frame: one byte of the text area, in row 20, becomes the grey 160 of the overlay.
  \<open>ready_renderer\<close> and \<open>ready_world\<close> are the renderer and the world after an
  initialisation in which every call succeeds, for a 1280 by 1024 output; in
  \<open>showing_session\<close> the capture thread has published one black frame of 64 by 48.
\<close>

definition stamp :: "Mat \<Rightarrow> Mat" where
  "stamp m = m\<lparr>pixels := (pixels m)[20 * step m + 66 := 160]\<rparr>"

definition quiet_tick :: tick where
  "quiet_tick =
     \<lparr>wm_quit = False, wm_close = False, fpsKey = False, vsyncKey = False, exitKey = False,
      putText = stamp, gpu = device_reply True 256\<rparr>"

definition ready_renderer :: DX11Renderer where
  "ready_renderer =
      \<lparr>device = Some 0, ctx = Some 1, swapChain = Some 6, rtv = Some 9, vs = Some 11,
       ps = Some 13, dynTex = None, srv = None, sampler = Some 14, winW = 1280, winH = 1024,
       texW = 0, texH = 0, tearingOk = True\<rparr>"

definition ready_world :: World where
  "ready_world =
      \<lparr>live = [14, 13, 11, 9, 6, 1, 0], fresh = 15, vram = (\<lambda>_ _. 0), vpitch = (\<lambda>_. 0),
       calls = [Release 3, Release 2, Release 5, Release 7, Release 4, Release 8, Release 10,
                Release 12]\<rparr>"

definition showing_session :: Session where
  "showing_session =
     \<lparr>tb = fst (captureIter (True, black_frame 64 48) (init_TripleBuffer, new_World)),
      dx = ready_renderer, world = ready_world,
      g_running = True, g_showFPS = False, g_vsync = False, ksFPS = False, ksVSync = False,
      ksExit = False\<rparr>"

definition overlay_session :: Session where
  "overlay_session = showing_session\<lparr>g_showFPS := True\<rparr>"

text \<open>The world after one more reference has been taken: \<open>acquire\<close> returns \<open>fresh\<close> and this.\<close>

definition push :: "World \<Rightarrow> World" where
  "push wd = wd\<lparr>live := fresh wd # live wd, fresh := Suc (fresh wd)\<rparr>"

text \<open>
  Sample inputs for \<^verbatim>\<open>main\<close>: a system in which every call of the initialisation
  succeeds but \<^verbatim>\<open>CreateSwapChainForHwnd\<close>, one in which every call succeeds, the exit
  key, and a run on a 1280 by 1024 screen in which every other resource is obtained.
\<close>

definition swap_fails :: init_reply where
  "swap_fails =
     \<lparr>createDevice_ok = True, factory5_ok = True, allow_tearing = True,
      createSwapChain_ok = False, factory1_ok = True, getBuffer_ok = True, createRTV_ok = True,
      vs_blob = True, vs_err = False, createVS_ok = True, ps_blob = True, ps_err = False,
      createPS_ok = True, createSampler_ok = True\<rparr>"

definition all_ok :: init_reply where
  "all_ok =
     \<lparr>createDevice_ok = True, factory5_ok = True, allow_tearing = True,
      createSwapChain_ok = True, factory1_ok = True, getBuffer_ok = True, createRTV_ok = True,
      vs_blob = True, vs_err = False, createVS_ok = True, ps_blob = True, ps_err = False,
      createPS_ok = True, createSampler_ok = True\<rparr>"

definition exit_tick :: tick where
  "exit_tick = quiet_tick\<lparr>exitKey := True\<rparr>"

definition session_env :: "init_reply \<Rightarrow> event list \<Rightarrow> main_env" where
  "session_env g es =
     \<lparr>mmcss_games_ok = True, deviceId = 0, cap_open_ok = True, mmcss_audio_ok = True,
      window_ok = True, screenW = 1280, screenH = 1024, init_env = g, events = es\<rparr>"

text \<open>
  Accounting for references: \<open>held\<close> is what the nine pointers of a renderer refer to,
  and a renderer and a world are accounted for, with respect to the references \<open>B\<close> taken
  elsewhere, when the references the process holds are exactly those and \<open>B\<close>.
\<close>

definition refs :: "handle option \<Rightarrow> handle multiset" where
  "refs p = (case p of None \<Rightarrow> {#} | Some h \<Rightarrow> {#h#})"

definition held :: "DX11Renderer \<Rightarrow> handle multiset" where
  "held r =
     refs (sampler r) + (refs (srv r) + (refs (dynTex r) + (refs (ps r) + (refs (vs r)
       + (refs (rtv r) + (refs (swapChain r) + (refs (ctx r) + refs (device r))))))))"

definition accounted :: "handle multiset \<Rightarrow> DX11Renderer \<times> World \<Rightarrow> bool" where
  "accounted B s = (mset (live (snd s)) = held (fst s) + B)"

text \<open>No \<^verbatim>\<open>D3DCompile\<close> hands back a message blob together with the code blob.\<close>

definition no_stray_messages :: "init_reply \<Rightarrow> bool" where
  "no_stray_messages g = (\<not> (vs_blob g \<and> vs_err g) \<and> \<not> (ps_blob g \<and> ps_err g))"

section \<open>Properties of the triple buffer\<close>

lemma smod_succ_3:
  fixes w :: int
  assumes "0 \<le> w" "w < 3"
  shows "0 \<le> (w + 1) smod 3" "(w + 1) smod 3 < 3" "(w + 1) smod 3 \<noteq> w"
proof -
  from assms have "w = 0 \<or> w = 1 \<or> w = 2" by arith
  then show "0 \<le> (w + 1) smod 3" "(w + 1) smod 3 < 3" "(w + 1) smod 3 \<noteq> w"
    by (auto simp: signed_modulo_int_def)
qed

lemma relay_inv_init: "relay_inv init_TripleBuffer"
  by (simp add: relay_inv_def init_TripleBuffer_def)

lemma relay_inv_commitWrite: "relay_inv b \<Longrightarrow> relay_inv (commitWrite b)"
  using smod_succ_3 [of "writing b"]
  by (simp add: relay_inv_def commitWrite_def Let_def)

lemma relay_inv_fillSlot: "relay_inv b \<Longrightarrow> relay_inv (fillSlot m b)"
  by (simp add: relay_inv_def fillSlot_def)

lemma relay_inv_exec_op: "relay_inv b \<Longrightarrow> relay_inv (exec_op x b)"
  by (cases x) (simp_all add: relay_inv_commitWrite relay_inv_fillSlot)

lemma relay_inv_run_ops: "relay_inv b \<Longrightarrow> relay_inv (run_ops xs b)"
  by (induction xs arbitrary: b) (simp_all add: relay_inv_exec_op)

lemma relay_inv_slot: "relay_inv b \<Longrightarrow> nat (writing b) < length (bufs b)"
  by (simp add: relay_inv_def nat_less_iff)

lemma readFrame_fillSlot: "relay_inv b \<Longrightarrow> readFrame (fillSlot m b) = readFrame b"
  by (auto simp: relay_inv_def readFrame_def tryRead_def deref_def fillSlot_def Let_def)

lemma readFrame_commitWrite:
  "relay_inv b \<Longrightarrow> readFrame (commitWrite b) = Some (bufs b ! nat (writing b))"
  by (simp add: relay_inv_def readFrame_def tryRead_def deref_def commitWrite_def Let_def)



lemma readFrame_init: "readFrame init_TripleBuffer = None"
  by (simp add: readFrame_def tryRead_def init_TripleBuffer_def)

lemma commitWrite_two_stores:
  "commitWrite b = store_writing (writing b) (store_latest (writing b) b)"
  by (simp add: commitWrite_def store_writing_def store_latest_def Let_def)



text \<open>
  What the statement above leaves out: the reader keeps the pointer while it uploads. The
  slot it designates becomes the write slot again after two further publishes, and the
  next store of the producer replaces its content.
\<close>

lemma slow_reader_example:
  "tryRead (run_ops [OpFill bgr_frame, OpCommit] init_TripleBuffer) = Some 0
   \<and> deref (run_ops [OpFill bgr_frame, OpCommit] init_TripleBuffer) 0 = bgr_frame
   \<and> deref (run_ops [OpFill bgr_frame, OpCommit, OpFill bgr_frame, OpCommit, OpFill bgr_frame,
        OpCommit, OpFill (black_frame 64 48)] init_TripleBuffer) 0 = black_frame 64 48"
  by (simp add: fillSlot_def commitWrite_def tryRead_def deref_def init_TripleBuffer_def
      signed_modulo_int_def Let_def)

text \<open>
  Claim C2. In every state reached from the initial one (\<open>latest = -1\<close>,
  \<open>writing = 0\<close>) by relay operations, the write index differs from the latest index;
  a \<^verbatim>\<open>commitWrite\<close> there marks the slot that was being written as latest and moves the
  write index to a different slot.
\<close>

theorem C2_write_index_differs_from_latest:
  "writing (run_ops xs init_TripleBuffer) \<noteq> latest (run_ops xs init_TripleBuffer)
   \<and> latest (commitWrite (run_ops xs init_TripleBuffer)) = writing (run_ops xs init_TripleBuffer)
   \<and> writing (commitWrite (run_ops xs init_TripleBuffer))
       \<noteq> latest (commitWrite (run_ops xs init_TripleBuffer))"
proof -
  have inv: "relay_inv (run_ops xs init_TripleBuffer)"
    by (rule relay_inv_run_ops [OF relay_inv_init])
  from relay_inv_commitWrite [OF inv] inv show ?thesis
    by (simp add: relay_inv_def) (simp add: commitWrite_def Let_def)
qed

section \<open>Properties of the capture loop\<close>

lemma captureIter_world: "snd (captureIter rd s) = snd s"
  by (simp add: captureIter_def Let_def)

lemma captureIter_publish:
  "relay_inv b \<Longrightarrow> fst rd \<Longrightarrow> \<not> empty_Mat (snd rd) \<Longrightarrow>
   captureIter rd (b, wd) = (commitWrite (fillSlot (snd rd) b), wd)"
  using relay_inv_slot [of b] by (simp add: captureIter_def Let_def fillSlot_def)

lemma captureIter_skip:
  "relay_inv b \<Longrightarrow> \<not> (fst rd \<and> \<not> empty_Mat (snd rd)) \<Longrightarrow>
   captureIter rd (b, wd) = (fillSlot (snd rd) b, wd)"
  using relay_inv_slot [of b] by (auto simp: captureIter_def Let_def fillSlot_def)

lemma relay_inv_captureIter: "relay_inv (fst s) \<Longrightarrow> relay_inv (fst (captureIter rd s))"
  by (simp add: captureIter_def Let_def relay_inv_commitWrite relay_inv_fillSlot)

lemma capture_fold_inv:
  "relay_inv (fst s) \<Longrightarrow> relay_inv (fst (foldl (\<lambda>st rd. captureIter rd st) s rds))"
  by (induction rds arbitrary: s) (simp_all add: relay_inv_captureIter)

lemma capture_fold_world: "snd (foldl (\<lambda>st rd. captureIter rd st) s rds) = snd s"
  by (induction rds arbitrary: s) (simp_all add: captureIter_world)

lemma captureLoop_calls:
  "calls (snd (captureLoop mm rds (b, wd))) = calls wd @ (if mm then [Release (fresh wd)] else [])"
  by (simp add: captureLoop_def Let_def acquire_def release_ref_def emit_def
      capture_fold_world split: prod.splits)

lemma captureLoop_fst:
  "fst (captureLoop mm rds (b, wd)) = fst (foldl (\<lambda>st rd. captureIter rd st) (b, wd) rds)"
proof -
  have "fst (foldl (\<lambda>st rd. captureIter rd st) (b, w1) rds)
        = fst (foldl (\<lambda>st rd. captureIter rd st) (b, w2) rds)" for w1 w2
  proof (induction rds arbitrary: b)
    case Nil show ?case by simp
  next
    case (Cons rd rds)
    have "captureIter rd (b, w1) = (fst (captureIter rd (b, w2)), w1)"
      by (simp add: captureIter_def Let_def)
    moreover have "captureIter rd (b, w2) = (fst (captureIter rd (b, w2)), w2)"
      by (simp add: captureIter_def Let_def)
    ultimately show ?case using Cons.IH [of "fst (captureIter rd (b, w2))"]
      by simp
  qed
  then show ?thesis
    by (auto simp: captureLoop_def Let_def acquire_def split: prod.splits)
qed

lemma fillSlot_others:
  "i \<noteq> nat (writing b) \<Longrightarrow> bufs (fillSlot m b) ! i = bufs b ! i"
  by (simp add: fillSlot_def)


lemma readFrame_publish: "relay_inv b \<Longrightarrow> readFrame (commitWrite (fillSlot m b)) = Some m"
  using relay_inv_slot [of b] readFrame_commitWrite [OF relay_inv_fillSlot, of b m]
  by (simp add: fillSlot_def)

lemma capture_fold_skipped:
  "relay_inv b \<Longrightarrow> list_all skipped fs \<Longrightarrow>
   latest (fst (foldl (\<lambda>st rd. captureIter rd st) (b, wd) fs)) = latest b
   \<and> writing (fst (foldl (\<lambda>st rd. captureIter rd st) (b, wd) fs)) = writing b"
proof (induction fs arbitrary: b)
  case Nil
  show ?case by simp
next
  case (Cons rd fs)
  from Cons.prems have "skipped rd" and rest: "list_all skipped fs"
    by simp_all
  then have sk: "\<not> (fst rd \<and> \<not> empty_Mat (snd rd))"
    by (simp add: skipped_def)
  have step: "captureIter rd (b, wd) = (fillSlot (snd rd) b, wd)"
    by (rule captureIter_skip [OF Cons.prems(1) sk])
  from Cons.IH [OF relay_inv_fillSlot [OF Cons.prems(1)] rest, of "snd rd"] step
  show ?case by (simp add: fillSlot_def)
qed

text \<open>
  Claim C4, as amended. In a reachable relay state, one pass of the capture loop
  publishes exactly when the read succeeded and left a non-empty frame, and then the
  reader sees that frame. A failed or empty read leaves both indices, every slot but
  the write slot and what \<^verbatim>\<open>tryRead\<close> returns unchanged; the write slot holds what the
  adapter left in it. No pass makes any call to the outside (no sleep, no report): the
  loop's only calls are its thread registration and its release. After any number of
  skipped passes the next good read is published.
\<close>

theorem C4_capture_iteration:
  assumes "relay_inv b"
  shows
    "snd (captureIter rd (b, wd)) = wd
     \<and> (if fst rd \<and> \<not> empty_Mat (snd rd)
        then fst (captureIter rd (b, wd)) = commitWrite (fillSlot (snd rd) b)
             \<and> readFrame (fst (captureIter rd (b, wd))) = Some (snd rd)
        else fst (captureIter rd (b, wd)) = fillSlot (snd rd) b
             \<and> latest (fst (captureIter rd (b, wd))) = latest b
             \<and> writing (fst (captureIter rd (b, wd))) = writing b
             \<and> readFrame (fst (captureIter rd (b, wd))) = readFrame b
             \<and> (\<forall>i. i \<noteq> nat (writing b) \<longrightarrow> bufs (fst (captureIter rd (b, wd))) ! i = bufs b ! i))
     \<and> (list_all skipped fs \<and> \<not> empty_Mat f
        \<longrightarrow> readFrame (fst (captureLoop mm (fs @ [(True, f)]) (b, wd))) = Some f)
     \<and> calls (snd (captureLoop mm rds (b, wd)))
        = calls wd @ (if mm then [Release (fresh wd)] else [])"
proof -
  have iter: "if fst rd \<and> \<not> empty_Mat (snd rd)
        then fst (captureIter rd (b, wd)) = commitWrite (fillSlot (snd rd) b)
             \<and> readFrame (fst (captureIter rd (b, wd))) = Some (snd rd)
        else fst (captureIter rd (b, wd)) = fillSlot (snd rd) b
             \<and> latest (fst (captureIter rd (b, wd))) = latest b
             \<and> writing (fst (captureIter rd (b, wd))) = writing b
             \<and> readFrame (fst (captureIter rd (b, wd))) = readFrame b
             \<and> (\<forall>i. i \<noteq> nat (writing b) \<longrightarrow> bufs (fst (captureIter rd (b, wd))) ! i = bufs b ! i)"
  proof (cases "fst rd \<and> \<not> empty_Mat (snd rd)")
    case True
    then show ?thesis
      using captureIter_publish [OF assms, of rd wd] readFrame_publish [OF assms, of "snd rd"]
      by simp
  next
    case False
    have eq: "captureIter rd (b, wd) = (fillSlot (snd rd) b, wd)"
      by (rule captureIter_skip [OF assms False])
    have idx: "latest (fillSlot (snd rd) b) = latest b" "writing (fillSlot (snd rd) b) = writing b"
      by (simp_all add: fillSlot_def)
    show ?thesis
      unfolding if_not_P [OF False] eq fst_conv
      using readFrame_fillSlot [OF assms, of "snd rd"] idx
      by (simp add: fillSlot_others)
  qed
  have retry: "readFrame (fst (captureLoop mm (fs @ [(True, f)]) (b, wd))) = Some f"
    if sk: "list_all skipped fs" and ne: "\<not> empty_Mat f"
  proof -
    let ?s = "foldl (\<lambda>st rd. captureIter rd st) (b, wd) fs"
    have inv: "relay_inv (fst ?s)"
      using capture_fold_inv [of "(b, wd)" fs] assms by simp
    have "captureIter (True, f) (fst ?s, snd ?s) = (commitWrite (fillSlot f (fst ?s)), snd ?s)"
      using captureIter_publish [OF inv, of "(True, f)" "snd ?s"] ne by simp
    then show ?thesis
      using readFrame_publish [OF inv, of f] by (simp add: captureLoop_fst)
  qed
  show ?thesis
    using iter retry by (simp add: captureIter_world captureLoop_calls)
qed

theorem C4_capture_iteration_witness:
  "relay_inv init_TripleBuffer
   \<and> list_all skipped [(False, blank_Mat), (True, blank_Mat)] \<and> \<not> empty_Mat bgr_frame
   \<and> readFrame (fst (captureLoop True ([(False, blank_Mat), (True, blank_Mat)] @ [(True, bgr_frame)])
        (init_TripleBuffer, new_World))) = Some bgr_frame
   \<and> readFrame (fst (captureIter (True, blank_Mat) (init_TripleBuffer, new_World))) = None"
proof -
  have sk: "list_all skipped [(False, blank_Mat), (True, blank_Mat)]"
    by (simp add: skipped_def empty_Mat_def blank_Mat_def)
  have ne: "\<not> empty_Mat bgr_frame"
    by (simp add: empty_Mat_def bgr_frame_def)
  have em: "empty_Mat (snd (True, blank_Mat))"
    by (simp add: empty_Mat_def blank_Mat_def)
  note inst = C4_capture_iteration [OF relay_inv_init, of "(True, blank_Mat)" new_World
      "[(False, blank_Mat), (True, blank_Mat)]" bgr_frame True "[]"]
  from inst sk ne have loop: "readFrame (fst (captureLoop True
      ([(False, blank_Mat), (True, blank_Mat)] @ [(True, bgr_frame)])
        (init_TripleBuffer, new_World))) = Some bgr_frame"
    by blast
  have c: "\<not> (fst (True, blank_Mat) \<and> \<not> empty_Mat (snd (True, blank_Mat)))"
    using em by simp
  from inst [unfolded if_not_P [OF c]]
  have "readFrame (fst (captureIter (True, blank_Mat) (init_TripleBuffer, new_World)))
      = readFrame init_TripleBuffer"
    by blast
  with loop sk ne show ?thesis
    by (simp add: relay_inv_init readFrame_init)
qed

text \<open>
  The claim as stated fails: after three published frames the write slot holds the
  first of them, and a read that succeeds with an empty frame empties that slot without
  publishing, so the relay state has changed.
\<close>

theorem C4_counterexample:
  "relay_inv (fst (captureLoop False [(True, bgr_frame), (True, bgr_frame), (True, bgr_frame)]
       (init_TripleBuffer, new_World)))
   \<and> empty_Mat (snd (True, blank_Mat))
   \<and> fst (captureIter (True, blank_Mat)
        (captureLoop False [(True, bgr_frame), (True, bgr_frame), (True, bgr_frame)]
          (init_TripleBuffer, new_World)))
     \<noteq> fst (captureLoop False [(True, bgr_frame), (True, bgr_frame), (True, bgr_frame)]
          (init_TripleBuffer, new_World))"
  by (simp add: captureLoop_def captureIter_def fillSlot_def commitWrite_def
      init_TripleBuffer_def signed_modulo_int_def empty_Mat_def blank_Mat_def bgr_frame_def
      relay_inv_def Let_def)

section \<open>Properties of the renderer\<close>

lemma ensureTexture_same:
  "texW (fst s) = w \<Longrightarrow> texH (fst s) = h \<Longrightarrow> ensureTexture g w h s = s"
  by (simp add: ensureTexture_def)

lemma release_old_fst:
  "fst (release_dynTex (release_srv (r, wd))) = r\<lparr>srv := None, dynTex := None\<rparr>"
  by (cases "srv r"; cases "dynTex r")
     (simp_all add: release_dynTex_def release_srv_def)

lemma release_old_calls:
  "calls (snd (release_dynTex (release_srv (r, wd)))) = calls wd @ old_releases r"
  by (cases "srv r"; cases "dynTex r")
     (simp_all add: release_dynTex_def release_srv_def old_releases_def release_ref_def emit_def)

lemma release_old_fresh:
  "fresh (snd (release_dynTex (release_srv (r, wd)))) = fresh wd"
  by (cases "srv r"; cases "dynTex r")
     (simp_all add: release_dynTex_def release_srv_def release_ref_def emit_def)

lemma ensureTexture_failed:
  assumes "texW r \<noteq> w \<or> texH r \<noteq> h" "\<not> tex_ok g"
  shows "fst (ensureTexture g w h (r, wd)) = r\<lparr>srv := None, dynTex := None\<rparr>"
    and "calls (snd (ensureTexture g w h (r, wd)))
         = calls wd @ old_releases r @ [CreateTexture2D w h, Cerr (CreateTexture2DFailed w h)]"
  using assms
  by (auto simp: ensureTexture_def Let_def release_old_fst release_old_calls emit_def)

lemma ensureTexture_created:
  assumes "texW r \<noteq> w \<or> texH r \<noteq> h" "tex_ok g"
  shows "fst (ensureTexture g w h (r, wd))
         = r\<lparr>srv := (if srv_ok g then Some (Suc (fresh wd)) else None), dynTex := Some (fresh wd),
              texW := w, texH := h\<rparr>"
    and "calls (snd (ensureTexture g w h (r, wd)))
         = calls wd @ old_releases r @ [CreateTexture2D w h, CreateShaderResourceView (fresh wd)]"
    and "fresh (snd (ensureTexture g w h (r, wd))) = (if srv_ok g then Suc (Suc (fresh wd)) else Suc (fresh wd))"
  using assms
  by (auto simp: ensureTexture_def Let_def release_old_fst release_old_calls release_old_fresh
      emit_def create_srv_def acquire_def split: prod.splits)

lemma uploadFrame_fst: "fst (uploadFrame g f s) = fst (ensureTexture g (cols f) (rows f) s)"
  by (simp add: uploadFrame_def Let_def split: option.splits)

lemma uploadFrame_fresh:
  "fresh (snd (uploadFrame g f s)) = fresh (snd (ensureTexture g (cols f) (rows f) s))"
  by (simp add: uploadFrame_def Let_def emit_def split: option.splits)

lemma uploadFrame_calls:
  "calls (snd (uploadFrame g f s))
   = calls (snd (ensureTexture g (cols f) (rows f) s))
     @ (case dynTex (fst (ensureTexture g (cols f) (rows f) s)) of
          None \<Rightarrow> []
        | Some t \<Rightarrow> MapWriteDiscard t # (if map_ok g then [Unmap t] else []))"
  by (simp add: uploadFrame_def Let_def emit_def split: option.splits)

lemma uploadFrame_no_texture:
  "dynTex (fst (ensureTexture g (cols f) (rows f) s)) = None \<Longrightarrow>
   uploadFrame g f s = ensureTexture g (cols f) (rows f) s"
  by (simp add: uploadFrame_def Let_def)

lemma render_no_view: "srv (fst s) = None \<Longrightarrow> render vsync s = s"
  by (simp add: render_def)

lemma render_calls:
  "srv (fst s) = Some v \<Longrightarrow>
   calls (snd (render vsync s))
   = calls (snd s) @
       [RSSetViewports (letterbox (fst s)), OMSetRenderTargets (rtv (fst s)),
        ClearRenderTargetView (rtv (fst s)), VSSetShader (vs (fst s)), PSSetShader (ps (fst s)),
        PSSetShaderResources v, PSSetSamplers (sampler (fst s)), IASetPrimitiveTopology,
        IASetInputLayout, Draw 3 0,
        Present (if vsync then 1 else 0)
          (if \<not> vsync \<and> tearingOk (fst s) then DXGI_PRESENT_ALLOW_TEARING else 0)]"
  by (simp add: render_def Let_def emit_def)

text \<open>
  Claim C10. Let an upload change the dimensions and \<^verbatim>\<open>CreateTexture2D\<close> fail. The old
  view and texture have been released before the creation was attempted, both pointers
  are null, and the cached dimensions are the previous ones; the failure is written to
  the error stream and nothing else reaches the caller. From then on an upload of a
  frame with the previous dimensions changes nothing and makes no call, \<^verbatim>\<open>render\<close>
  changes nothing and makes no call, and an upload with the failed dimensions calls
  \<^verbatim>\<open>CreateTexture2D\<close> again first, obtaining a texture if the device now answers.
\<close>

theorem C10_failed_texture_creation:
  assumes "texW r \<noteq> cols f \<or> texH r \<noteq> rows f" and "\<not> tex_ok g"
  shows
    "dynTex (fst (uploadFrame g f (r, wd))) = None
     \<and> srv (fst (uploadFrame g f (r, wd))) = None
     \<and> texW (fst (uploadFrame g f (r, wd))) = texW r
     \<and> texH (fst (uploadFrame g f (r, wd))) = texH r
     \<and> calls (snd (uploadFrame g f (r, wd)))
        = calls wd @ old_releases r
          @ [CreateTexture2D (cols f) (rows f), Cerr (CreateTexture2DFailed (cols f) (rows f))]
     \<and> (cols f1 = texW r \<and> rows f1 = texH r
        \<longrightarrow> uploadFrame g1 f1 (uploadFrame g f (r, wd)) = uploadFrame g f (r, wd))
     \<and> render vsync (uploadFrame g f (r, wd)) = uploadFrame g f (r, wd)
     \<and> (cols f2 = cols f \<and> rows f2 = rows f
        \<longrightarrow> take (Suc (length (calls (snd (uploadFrame g f (r, wd))))))
              (calls (snd (uploadFrame g2 f2 (uploadFrame g f (r, wd)))))
            = calls (snd (uploadFrame g f (r, wd))) @ [CreateTexture2D (cols f) (rows f)]
          \<and> (tex_ok g2 \<longrightarrow> dynTex (fst (uploadFrame g2 f2 (uploadFrame g f (r, wd)))) \<noteq> None))"
proof -
  let ?s1 = "uploadFrame g f (r, wd)"
  have e: "fst (ensureTexture g (cols f) (rows f) (r, wd)) = r\<lparr>srv := None, dynTex := None\<rparr>"
    by (rule ensureTexture_failed(1) [OF assms])
  then have up: "?s1 = ensureTexture g (cols f) (rows f) (r, wd)"
    by (simp add: uploadFrame_no_texture)
  have st: "fst ?s1 = r\<lparr>srv := None, dynTex := None\<rparr>"
    using e up by simp
  have cl: "calls (snd ?s1) = calls wd @ old_releases r
          @ [CreateTexture2D (cols f) (rows f), Cerr (CreateTexture2DFailed (cols f) (rows f))]"
    using ensureTexture_failed(2) [OF assms, of wd] up by simp
  have same: "uploadFrame g1 f1 ?s1 = ?s1" if "cols f1 = texW r \<and> rows f1 = texH r"
  proof -
    have "ensureTexture g1 (cols f1) (rows f1) ?s1 = ?s1"
      using that st by (simp add: ensureTexture_same)
    then show ?thesis
      using st by (simp add: uploadFrame_no_texture)
  qed
  have rn: "render vsync ?s1 = ?s1"
    using st by (simp add: render_no_view)
  have retry: "take (Suc (length (calls (snd ?s1)))) (calls (snd (uploadFrame g2 f2 ?s1)))
            = calls (snd ?s1) @ [CreateTexture2D (cols f) (rows f)]
          \<and> (tex_ok g2 \<longrightarrow> dynTex (fst (uploadFrame g2 f2 ?s1)) \<noteq> None)"
    if d: "cols f2 = cols f \<and> rows f2 = rows f"
  proof -
    obtain r1 w1 where s1: "?s1 = (r1, w1)" by (cases ?s1)
    with st have r1: "r1 = r\<lparr>srv := None, dynTex := None\<rparr>" by simp
    have diff: "texW r1 \<noteq> cols f2 \<or> texH r1 \<noteq> rows f2"
      using assms(1) d r1 by simp
    have rel: "old_releases r1 = []"
      using r1 by (simp add: old_releases_def)
    show ?thesis
    proof (cases "tex_ok g2")
      case True
      from ensureTexture_created [OF diff True, of w1] rel d s1 show ?thesis
        by (simp add: uploadFrame_calls uploadFrame_fst)
    next
      case False
      from ensureTexture_failed [OF diff False, of w1] rel d s1 show ?thesis
        by (simp add: uploadFrame_calls uploadFrame_fst False)
    qed
  qed
  show ?thesis
    using st cl same rn retry by simp
qed

lemma uploadFrame_live:
  "live (snd (uploadFrame g f s)) = live (snd (ensureTexture g (cols f) (rows f) s))"
  by (simp add: uploadFrame_def Let_def emit_def split: option.splits)

lemma letterbox_size:
  "Width (letterbox r)
     = real_of_int (texW r) * min (real_of_int (winW r) / real_of_int (texW r))
                                  (real_of_int (winH r) / real_of_int (texH r))"
  "Height (letterbox r)
     = real_of_int (texH r) * min (real_of_int (winW r) / real_of_int (texW r))
                                  (real_of_int (winH r) / real_of_int (texH r))"
  by (simp_all add: letterbox_def Let_def)

text \<open>
  Claim C7. An upload whose frame has the cached dimensions leaves the renderer, and
  the references held, as they were: its only calls map and unmap the texture. An
  upload with other dimensions first releases the old view and the old texture, then
  creates a texture of the frame's size and its view, which, when the device creates
  them, are new objects, and caches the new dimensions. After an upload of 1920 by 1080
  and one of 1280 by 720 on a fresh renderer the second texture is a new object, the
  first one has been released, and the viewport \<^verbatim>\<open>render\<close> sets is computed from
  1280 by 720.
\<close>

theorem C7_texture_follows_frame_size:
  "(texW r = cols f \<and> texH r = rows f
    \<longrightarrow> fst (uploadFrame g f (r, wd)) = r
        \<and> live (snd (uploadFrame g f (r, wd))) = live wd
        \<and> calls (snd (uploadFrame g f (r, wd)))
           = calls wd @ (case dynTex r of
                           None \<Rightarrow> []
                         | Some t \<Rightarrow> MapWriteDiscard t # (if map_ok g then [Unmap t] else [])))
   \<and> ((texW r \<noteq> cols f \<or> texH r \<noteq> rows f) \<and> tex_ok g \<and> srv_ok g
    \<longrightarrow> dynTex (fst (uploadFrame g f (r, wd))) = Some (fresh wd)
        \<and> srv (fst (uploadFrame g f (r, wd))) = Some (Suc (fresh wd))
        \<and> texW (fst (uploadFrame g f (r, wd))) = cols f
        \<and> texH (fst (uploadFrame g f (r, wd))) = rows f
        \<and> take (length (calls wd) + length (old_releases r) + 2)
             (calls (snd (uploadFrame g f (r, wd))))
           = calls wd @ old_releases r
             @ [CreateTexture2D (cols f) (rows f), CreateShaderResourceView (fresh wd)])
   \<and> (dynTex r = None \<and> srv r = None \<and> texW r = 0 \<and> texH r = 0
      \<and> cols f1 = 1920 \<and> rows f1 = 1080 \<and> cols f2 = 1280 \<and> rows f2 = 720
      \<and> tex_ok g1 \<and> srv_ok g1 \<and> tex_ok g2 \<and> srv_ok g2
    \<longrightarrow> dynTex (fst (uploadFrame g1 f1 (r, wd))) = Some (fresh wd)
        \<and> dynTex (fst (uploadFrame g2 f2 (uploadFrame g1 f1 (r, wd)))) = Some (fresh wd + 2)
        \<and> take 3 (drop (length (calls (snd (uploadFrame g1 f1 (r, wd)))))
             (calls (snd (uploadFrame g2 f2 (uploadFrame g1 f1 (r, wd))))))
           = [Release (Suc (fresh wd)), Release (fresh wd), CreateTexture2D 1280 720]
        \<and> texW (fst (uploadFrame g2 f2 (uploadFrame g1 f1 (r, wd)))) = 1280
        \<and> texH (fst (uploadFrame g2 f2 (uploadFrame g1 f1 (r, wd)))) = 720
        \<and> hd (drop (length (calls (snd (uploadFrame g2 f2 (uploadFrame g1 f1 (r, wd))))))
             (calls (snd (render vsync (uploadFrame g2 f2 (uploadFrame g1 f1 (r, wd)))))))
           = RSSetViewports (letterbox (r\<lparr>texW := 1280, texH := 720\<rparr>))
        \<and> Width (letterbox (r\<lparr>texW := 1280, texH := 720\<rparr>))
           = 1280 * min (real_of_int (winW r) / 1280) (real_of_int (winH r) / 720)
        \<and> Height (letterbox (r\<lparr>texW := 1280, texH := 720\<rparr>))
           = 720 * min (real_of_int (winW r) / 1280) (real_of_int (winH r) / 720))"
proof (intro conjI impI)
  assume same: "texW r = cols f \<and> texH r = rows f"
  then have e: "ensureTexture g (cols f) (rows f) (r, wd) = (r, wd)"
    by (simp add: ensureTexture_same)
  show "fst (uploadFrame g f (r, wd)) = r"
    by (simp add: uploadFrame_fst e)
  show "live (snd (uploadFrame g f (r, wd))) = live wd"
    by (simp add: uploadFrame_live e)
  show "calls (snd (uploadFrame g f (r, wd)))
           = calls wd @ (case dynTex r of
                           None \<Rightarrow> []
                         | Some t \<Rightarrow> MapWriteDiscard t # (if map_ok g then [Unmap t] else []))"
    by (simp add: uploadFrame_calls e)
next
  assume h: "(texW r \<noteq> cols f \<or> texH r \<noteq> rows f) \<and> tex_ok g \<and> srv_ok g"
  then have d: "texW r \<noteq> cols f \<or> texH r \<noteq> rows f" and t: "tex_ok g" and v: "srv_ok g"
    by simp_all
  note c = ensureTexture_created [OF d t, of wd]
  show "dynTex (fst (uploadFrame g f (r, wd))) = Some (fresh wd)"
    by (simp add: uploadFrame_fst c(1))
  show "srv (fst (uploadFrame g f (r, wd))) = Some (Suc (fresh wd))"
    by (simp add: uploadFrame_fst c(1) v)
  show "texW (fst (uploadFrame g f (r, wd))) = cols f"
    by (simp add: uploadFrame_fst c(1))
  show "texH (fst (uploadFrame g f (r, wd))) = rows f"
    by (simp add: uploadFrame_fst c(1))
  show "take (length (calls wd) + length (old_releases r) + 2)
             (calls (snd (uploadFrame g f (r, wd))))
           = calls wd @ old_releases r
             @ [CreateTexture2D (cols f) (rows f), CreateShaderResourceView (fresh wd)]"
    by (simp add: uploadFrame_calls c(2))
next
  assume h: "dynTex r = None \<and> srv r = None \<and> texW r = 0 \<and> texH r = 0
      \<and> cols f1 = 1920 \<and> rows f1 = 1080 \<and> cols f2 = 1280 \<and> rows f2 = 720
      \<and> tex_ok g1 \<and> srv_ok g1 \<and> tex_ok g2 \<and> srv_ok g2"
  let ?s1 = "uploadFrame g1 f1 (r, wd)"
  let ?s2 = "uploadFrame g2 f2 ?s1"
  obtain r1 w1 where s1: "?s1 = (r1, w1)" by (cases ?s1)
  have d1: "texW r \<noteq> cols f1 \<or> texH r \<noteq> rows f1" using h by simp
  note c1 = ensureTexture_created [OF d1, of g1 wd]
  have r1: "r1 = r\<lparr>srv := Some (Suc (fresh wd)), dynTex := Some (fresh wd),
                   texW := 1920, texH := 1080\<rparr>"
    using s1 c1(1) h uploadFrame_fst [of g1 f1 "(r, wd)"] by simp
  have fr1: "fresh w1 = Suc (Suc (fresh wd))"
    using s1 c1(3) h uploadFrame_fresh [of g1 f1 "(r, wd)"] by simp
  have d2: "texW r1 \<noteq> cols f2 \<or> texH r1 \<noteq> rows f2" using h r1 by simp
  note c2 = ensureTexture_created [OF d2, of g2 w1]
  have rel: "old_releases r1 = [Release (Suc (fresh wd)), Release (fresh wd)]"
    using r1 by (simp add: old_releases_def)
  have r2: "fst ?s2 = r\<lparr>srv := Some (fresh wd + 3), dynTex := Some (fresh wd + 2),
                   texW := 1280, texH := 720\<rparr>"
    using c2(1) h r1 fr1 s1 uploadFrame_fst [of g2 f2 "(r1, w1)"] by simp
  show "dynTex (fst ?s1) = Some (fresh wd)"
    using s1 r1 by simp
  show "dynTex (fst ?s2) = Some (fresh wd + 2)"
    using r2 by simp
  show "take 3 (drop (length (calls (snd ?s1))) (calls (snd ?s2)))
           = [Release (Suc (fresh wd)), Release (fresh wd), CreateTexture2D 1280 720]"
    using c2(2) h rel s1 uploadFrame_calls [of g2 f2 "(r1, w1)"] by simp
  show "texW (fst ?s2) = 1280" using r2 by simp
  show "texH (fst ?s2) = 720" using r2 by simp
  have lb: "letterbox (fst ?s2) = letterbox (r\<lparr>texW := 1280, texH := 720\<rparr>)"
    using r2 by (simp add: letterbox_def)
  show "hd (drop (length (calls (snd ?s2))) (calls (snd (render vsync ?s2))))
           = RSSetViewports (letterbox (r\<lparr>texW := 1280, texH := 720\<rparr>))"
    using render_calls [of ?s2 "fresh wd + 3" vsync] r2 lb by simp
  show "Width (letterbox (r\<lparr>texW := 1280, texH := 720\<rparr>))
           = 1280 * min (real_of_int (winW r) / 1280) (real_of_int (winH r) / 720)"
    by (simp add: letterbox_size)
  show "Height (letterbox (r\<lparr>texW := 1280, texH := 720\<rparr>))
           = 720 * min (real_of_int (winW r) / 1280) (real_of_int (winH r) / 720)"
    by (simp add: letterbox_size)
qed

lemma black_frame_size: "cols (black_frame w h) = w" "rows (black_frame w h) = h"
  by (simp_all add: black_frame_def)

lemma device_reply_sel:
  "tex_ok (device_reply ok p) = ok" "srv_ok (device_reply ok p) = True"
  "map_ok (device_reply ok p) = True"
  by (simp_all add: device_reply_def)

lemma hd_renderer_sel:
  "texW hd_renderer = 1920" "texH hd_renderer = 1080" "dynTex hd_renderer = Some 0"
  "srv hd_renderer = Some 1"
  by (simp_all add: hd_renderer_def)

lemma new_renderer_sel:
  "texW new_DX11Renderer = 0" "texH new_DX11Renderer = 0" "dynTex new_DX11Renderer = None"
  "srv new_DX11Renderer = None"
  by (simp_all add: new_DX11Renderer_def)

theorem C10_failed_texture_creation_witness:
  "texW hd_renderer \<noteq> cols (black_frame 1280 720)
   \<and> \<not> tex_ok (device_reply False 5120)
   \<and> dynTex (fst (uploadFrame (device_reply False 5120) (black_frame 1280 720)
        (hd_renderer, hd_world))) = None
   \<and> texW (fst (uploadFrame (device_reply False 5120) (black_frame 1280 720)
        (hd_renderer, hd_world))) = 1920
   \<and> calls (snd (uploadFrame (device_reply False 5120) (black_frame 1280 720)
        (hd_renderer, hd_world)))
      = [Release 1, Release 0, CreateTexture2D 1280 720, Cerr (CreateTexture2DFailed 1280 720)]
   \<and> uploadFrame (device_reply True 7680) (black_frame 1920 1080)
        (uploadFrame (device_reply False 5120) (black_frame 1280 720) (hd_renderer, hd_world))
      = uploadFrame (device_reply False 5120) (black_frame 1280 720) (hd_renderer, hd_world)
   \<and> render False
        (uploadFrame (device_reply False 5120) (black_frame 1280 720) (hd_renderer, hd_world))
      = uploadFrame (device_reply False 5120) (black_frame 1280 720) (hd_renderer, hd_world)
   \<and> dynTex (fst (uploadFrame (device_reply True 5120) (black_frame 1280 720)
        (uploadFrame (device_reply False 5120) (black_frame 1280 720)
          (hd_renderer, hd_world)))) \<noteq> None"
proof -
  have d: "texW hd_renderer \<noteq> cols (black_frame 1280 720)
      \<or> texH hd_renderer \<noteq> rows (black_frame 1280 720)"
    by (simp add: black_frame_size hd_renderer_sel)
  have t: "\<not> tex_ok (device_reply False 5120)"
    by (simp add: device_reply_sel)
  have c: "calls hd_world = []"
    by (simp add: hd_world_def new_World_def)
  from C10_failed_texture_creation [OF d t, of hd_world "black_frame 1920 1080"
      "device_reply True 7680" False "black_frame 1280 720" "device_reply True 5120"]
  show ?thesis
    using d t c
    by (simp add: black_frame_size hd_renderer_sel device_reply_sel old_releases_def)
qed

theorem C7_texture_follows_frame_size_witness:
  "(texW hd_renderer = cols (black_frame 1920 1080) \<and> texH hd_renderer = rows (black_frame 1920 1080))
   \<and> fst (uploadFrame (device_reply True 7680) (black_frame 1920 1080) (hd_renderer, hd_world))
      = hd_renderer
   \<and> calls (snd (uploadFrame (device_reply True 7680) (black_frame 1920 1080)
        (hd_renderer, hd_world))) = [MapWriteDiscard 0, Unmap 0]
   \<and> texW hd_renderer \<noteq> cols (black_frame 1280 720)
   \<and> tex_ok (device_reply True 5120) \<and> srv_ok (device_reply True 5120)
   \<and> dynTex (fst (uploadFrame (device_reply True 5120) (black_frame 1280 720)
        (hd_renderer, hd_world))) = Some 2
   \<and> take 4 (calls (snd (uploadFrame (device_reply True 5120) (black_frame 1280 720)
        (hd_renderer, hd_world))))
      = [Release 1, Release 0, CreateTexture2D 1280 720, CreateShaderResourceView 2]
   \<and> dynTex new_DX11Renderer = None \<and> srv new_DX11Renderer = None
   \<and> texW new_DX11Renderer = 0 \<and> texH new_DX11Renderer = 0
   \<and> dynTex (fst (uploadFrame (device_reply True 5120) (black_frame 1280 720)
        (uploadFrame (device_reply True 7680) (black_frame 1920 1080)
          (new_DX11Renderer, new_World)))) = Some 2
   \<and> texW (fst (uploadFrame (device_reply True 5120) (black_frame 1280 720)
        (uploadFrame (device_reply True 7680) (black_frame 1920 1080)
          (new_DX11Renderer, new_World)))) = 1280"
proof -
  have w: "calls hd_world = []" "fresh hd_world = 2" "fresh new_World = 0"
    by (simp_all add: hd_world_def new_World_def)
  note a = C7_texture_follows_frame_size [where r = hd_renderer and wd = hd_world
      and f = "black_frame 1920 1080" and g = "device_reply True 7680"]
  note b = C7_texture_follows_frame_size [where r = hd_renderer and wd = hd_world
      and f = "black_frame 1280 720" and g = "device_reply True 5120"]
  note c = C7_texture_follows_frame_size [where r = new_DX11Renderer and wd = new_World
      and ?f1.0 = "black_frame 1920 1080" and ?g1.0 = "device_reply True 7680"
      and ?f2.0 = "black_frame 1280 720" and ?g2.0 = "device_reply True 5120"]
  from a have "fst (uploadFrame (device_reply True 7680) (black_frame 1920 1080)
        (hd_renderer, hd_world)) = hd_renderer
      \<and> calls (snd (uploadFrame (device_reply True 7680) (black_frame 1920 1080)
        (hd_renderer, hd_world))) = [MapWriteDiscard 0, Unmap 0]"
    by (simp add: black_frame_size hd_renderer_sel device_reply_sel w)
  moreover from b have "dynTex (fst (uploadFrame (device_reply True 5120) (black_frame 1280 720)
        (hd_renderer, hd_world))) = Some 2
     \<and> take 4 (calls (snd (uploadFrame (device_reply True 5120) (black_frame 1280 720)
        (hd_renderer, hd_world))))
      = [Release 1, Release 0, CreateTexture2D 1280 720, CreateShaderResourceView 2]"
    by (simp add: black_frame_size hd_renderer_sel device_reply_sel w old_releases_def
        eval_nat_numeral)
  moreover from c have "dynTex (fst (uploadFrame (device_reply True 5120) (black_frame 1280 720)
        (uploadFrame (device_reply True 7680) (black_frame 1920 1080)
          (new_DX11Renderer, new_World)))) = Some 2
   \<and> texW (fst (uploadFrame (device_reply True 5120) (black_frame 1280 720)
        (uploadFrame (device_reply True 7680) (black_frame 1920 1080)
          (new_DX11Renderer, new_World)))) = 1280"
    by (simp add: black_frame_size new_renderer_sel device_reply_sel w)
  ultimately show ?thesis
    by (simp add: black_frame_size hd_renderer_sel new_renderer_sel device_reply_sel)
qed






section \<open>Properties of the main loop\<close>

lemma pump_messages_keeps:
  "tb (pump_messages t s) = tb s" "dx (pump_messages t s) = dx s"
  "world (pump_messages t s) = world s" "g_showFPS (pump_messages t s) = g_showFPS s"
  "g_vsync (pump_messages t s) = g_vsync s"
  by (simp_all add: pump_messages_def)

lemma poll_keys_keeps:
  "tb (poll_keys t s) = tb s" "dx (poll_keys t s) = dx s" "world (poll_keys t s) = world s"
  by (simp_all add: poll_keys_def poll_def Let_def)

lemma inputs_done_keeps:
  "tb (inputs_done t s) = tb s" "dx (inputs_done t s) = dx s"
  "world (inputs_done t s) = world s"
  by (simp_all add: inputs_done_def pump_messages_keeps poll_keys_keeps)

lemma show_frame_none:
  "no_frame (tb s) \<Longrightarrow> show_frame t s = s\<lparr>world := emit (Sleep 1) (world s)\<rparr>"
  by (auto simp: no_frame_def show_frame_def readFrame_def Let_def split: option.splits)

lemma show_frame_some:
  assumes "\<not> no_frame (tb s)"
  shows "\<exists>i. tryRead (tb s) = Some i
     \<and> show_frame t s =
         (let bw = (if g_showFPS s then drawFPS (putText t) (Some i) (tb s, world s)
                    else (tb s, world s));
              rw = render (g_vsync s) (uploadFrame (gpu t) (deref (fst bw) i) (dx s, snd bw))
          in s\<lparr>tb := fst bw, dx := fst rw, world := snd rw\<rparr>)"
proof -
  from assms obtain i where i: "tryRead (tb s) = Some i" and ne: "\<not> empty_Mat (deref (tb s) i)"
    by (auto simp: no_frame_def readFrame_def split: option.splits)
  then have "show_frame t s =
         (let bw = (if g_showFPS s then drawFPS (putText t) (Some i) (tb s, world s)
                    else (tb s, world s));
              rw = render (g_vsync s) (uploadFrame (gpu t) (deref (fst bw) i) (dx s, snd bw))
          in s\<lparr>tb := fst bw, dx := fst rw, world := snd rw\<rparr>)"
    by (simp add: show_frame_def Let_def split: prod.splits)
  with i show ?thesis by blast
qed

lemma black_frame_nonempty: "0 < w \<Longrightarrow> 0 < h \<Longrightarrow> \<not> empty_Mat (black_frame w h)"
  by (simp add: empty_Mat_def black_frame_def)

lemma showing_relay:
  "tb showing_session =
     \<lparr>bufs = [black_frame 64 48, blank_Mat, blank_Mat], latest = 0, writing = 1\<rparr>"
  using black_frame_nonempty [of 64 48]
  by (simp add: showing_session_def captureIter_def fillSlot_def commitWrite_def
      init_TripleBuffer_def signed_modulo_int_def Let_def)

lemma showing_no_frame: "\<not> no_frame (tb showing_session)"
  using black_frame_nonempty [of 64 48]
  by (simp add: showing_relay no_frame_def readFrame_def tryRead_def deref_def)

lemma inputs_done_flags:
  "\<not> fpsKey t \<Longrightarrow> g_showFPS (inputs_done t s) = g_showFPS s"
  "\<not> vsyncKey t \<Longrightarrow> g_vsync (inputs_done t s) = g_vsync s"
  by (simp_all add: inputs_done_def pump_messages_def poll_keys_def poll_def Let_def)

lemma render_fst: "fst (render v s) = fst s"
  by (simp add: render_def Let_def split: option.splits)

lemma main_iter_idle:
  assumes "no_frame (tb s)"
  shows "main_iter t s = (inputs_done t s)\<lparr>world := emit (Sleep 1) (world s)\<rparr>"
proof -
  from assms have "no_frame (tb (inputs_done t s))"
    by (simp add: inputs_done_keeps)
  then show ?thesis
    using show_frame_none [of "inputs_done t s" t]
    by (simp add: main_iter_def inputs_done_def [symmetric] inputs_done_keeps)
qed

lemma main_iter_shows:
  assumes "\<not> no_frame (tb s)"
  shows "tryRead (tb s) = Some (nat (latest (tb s)))"
    and "\<not> empty_Mat (deref (tb s) (nat (latest (tb s))))"
    and "tb (main_iter t s)
         = (if g_showFPS (inputs_done t s)
            then (tb s)\<lparr>bufs := (bufs (tb s))[nat (latest (tb s))
                          := putText t (deref (tb s) (nat (latest (tb s))))]\<rparr>
            else tb s)"
    and "(dx (main_iter t s), world (main_iter t s))
           = render (g_vsync (inputs_done t s))
               (uploadFrame (gpu t) (deref (tb (main_iter t s)) (nat (latest (tb s))))
                  (dx s, if g_showFPS (inputs_done t s)
                         then emit (PutText (nat (latest (tb s)))) (world s) else world s))"
proof -
  from assms have n1: "\<not> no_frame (tb (inputs_done t s))"
    by (simp add: inputs_done_keeps)
  from assms show ne: "\<not> empty_Mat (deref (tb s) (nat (latest (tb s))))"
    and tr: "tryRead (tb s) = Some (nat (latest (tb s)))"
    by (auto simp: no_frame_def readFrame_def tryRead_def Let_def split: option.splits if_splits)
  from show_frame_some [OF n1, of t] tr
  have sf: "show_frame t (inputs_done t s) =
         (let u = inputs_done t s; i = nat (latest (tb s));
              bw = (if g_showFPS u then drawFPS (putText t) (Some i) (tb u, world u)
                    else (tb u, world u));
              rw = render (g_vsync u) (uploadFrame (gpu t) (deref (fst bw) i) (dx u, snd bw))
          in u\<lparr>tb := fst bw, dx := fst rw, world := snd rw\<rparr>)"
    by (auto simp: inputs_done_keeps Let_def)
  show "tb (main_iter t s)
         = (if g_showFPS (inputs_done t s)
            then (tb s)\<lparr>bufs := (bufs (tb s))[nat (latest (tb s))
                          := putText t (deref (tb s) (nat (latest (tb s))))]\<rparr>
            else tb s)"
    using ne
    by (simp add: main_iter_def inputs_done_def [symmetric] sf Let_def inputs_done_keeps
        drawFPS_def)
  show "(dx (main_iter t s), world (main_iter t s))
           = render (g_vsync (inputs_done t s))
               (uploadFrame (gpu t) (deref (tb (main_iter t s)) (nat (latest (tb s))))
                  (dx s, if g_showFPS (inputs_done t s)
                         then emit (PutText (nat (latest (tb s)))) (world s) else world s))"
    using ne
    by (simp add: main_iter_def inputs_done_def [symmetric] sf Let_def inputs_done_keeps
        drawFPS_def)
qed

text \<open>
  Claim C9, as amended. One pass of the main loop is a function of its inputs and makes
  finitely many calls: it never waits for a frame. When \<^verbatim>\<open>tryRead\<close> gives no frame or an
  empty one, the pass sleeps one millisecond and changes neither the relay nor the
  renderer: nothing is uploaded or rendered. In every other case, whatever was displayed
  before, the pass uploads the frame \<^verbatim>\<open>tryRead\<close> designates and renders it.
\<close>

theorem C9_consumer_polls:
  "(no_frame (tb s)
    \<longrightarrow> main_iter t s = (inputs_done t s)\<lparr>world := emit (Sleep 1) (world s)\<rparr>
        \<and> tb (main_iter t s) = tb s \<and> dx (main_iter t s) = dx s
        \<and> calls (world (main_iter t s)) = calls (world s) @ [Sleep 1])
   \<and> (\<not> no_frame (tb s)
    \<longrightarrow> tryRead (tb s) = Some (nat (latest (tb s)))
        \<and> (dx (main_iter t s), world (main_iter t s))
           = render (g_vsync (inputs_done t s))
               (uploadFrame (gpu t) (deref (tb (main_iter t s)) (nat (latest (tb s))))
                  (dx s, if g_showFPS (inputs_done t s)
                         then emit (PutText (nat (latest (tb s)))) (world s) else world s)))"
proof (intro conjI impI)
  assume n: "no_frame (tb s)"
  note m = main_iter_idle [OF n, of t]
  show "main_iter t s = (inputs_done t s)\<lparr>world := emit (Sleep 1) (world s)\<rparr>"
    by (rule m)
  show "tb (main_iter t s) = tb s" "dx (main_iter t s) = dx s"
    by (simp_all add: m inputs_done_keeps)
  show "calls (world (main_iter t s)) = calls (world s) @ [Sleep 1]"
    by (simp add: m emit_def)
next
  assume n: "\<not> no_frame (tb s)"
  show "tryRead (tb s) = Some (nat (latest (tb s)))"
    by (rule main_iter_shows(1) [OF n])
  show "(dx (main_iter t s), world (main_iter t s))
           = render (g_vsync (inputs_done t s))
               (uploadFrame (gpu t) (deref (tb (main_iter t s)) (nat (latest (tb s))))
                  (dx s, if g_showFPS (inputs_done t s)
                         then emit (PutText (nat (latest (tb s)))) (world s) else world s))"
    by (rule main_iter_shows(4) [OF n])
qed

lemma showing_first:
  "tb (main_iter quiet_tick showing_session) = tb showing_session"
  "dx (main_iter quiet_tick showing_session)
     = ready_renderer\<lparr>srv := Some 16, dynTex := Some 15, texW := 64, texH := 48\<rparr>"
  "\<not> no_frame (tb (main_iter quiet_tick showing_session))"
  "g_showFPS (main_iter quiet_tick showing_session) = False"
  "g_vsync (main_iter quiet_tick showing_session) = False"
proof -
  have k: "\<not> fpsKey quiet_tick" "\<not> vsyncKey quiet_tick" "gpu quiet_tick = device_reply True 256"
    by (simp_all add: quiet_tick_def)
  have f: "g_showFPS showing_session = False" "g_vsync showing_session = False"
    "dx showing_session = ready_renderer" "world showing_session = ready_world"
    by (simp_all add: showing_session_def)
  note sh3 = main_iter_shows(3) [OF showing_no_frame, of quiet_tick]
  note sh4 = main_iter_shows(4) [OF showing_no_frame, of quiet_tick]
  show t: "tb (main_iter quiet_tick showing_session) = tb showing_session"
    using sh3 by (simp add: inputs_done_flags k f)
  then show "\<not> no_frame (tb (main_iter quiet_tick showing_session))"
    by (simp add: showing_no_frame)
  have d: "texW ready_renderer \<noteq> cols (black_frame 64 48) \<or> texH ready_renderer \<noteq> rows (black_frame 64 48)"
    by (simp add: ready_renderer_def black_frame_size)
  have "dx (main_iter quiet_tick showing_session)
      = fst (ensureTexture (device_reply True 256) 64 48 (ready_renderer, ready_world))"
    using sh4 t
    by (simp add: inputs_done_flags k f showing_relay deref_def prod_eq_iff render_fst
        uploadFrame_fst black_frame_size)
  then show "dx (main_iter quiet_tick showing_session)
     = ready_renderer\<lparr>srv := Some 16, dynTex := Some 15, texW := 64, texH := 48\<rparr>"
    using ensureTexture_created(1) [OF d, of "device_reply True 256" ready_world]
    by (simp add: device_reply_sel black_frame_size ready_world_def)
  show "g_showFPS (main_iter quiet_tick showing_session) = False"
    "g_vsync (main_iter quiet_tick showing_session) = False"
    using showing_no_frame
    by (auto simp: main_iter_def show_frame_def pump_messages_def poll_keys_def poll_def
        quiet_tick_def showing_session_def Let_def split: option.splits prod.splits)
qed

text \<open>
  The claim as stated fails: with one published frame and nothing published since, the
  second pass of the main loop reads the frame the first pass displayed, and maps,
  unmaps, draws and presents again instead of sleeping.
\<close>

theorem C9_counterexample:
  "readFrame (tb showing_session) = Some (black_frame 64 48)
   \<and> readFrame (tb (main_iter quiet_tick showing_session)) = Some (black_frame 64 48)
   \<and> calls (world (main_iter quiet_tick (main_iter quiet_tick showing_session)))
      = calls (world (main_iter quiet_tick showing_session))
        @ [MapWriteDiscard 15, Unmap 15,
           RSSetViewports \<lparr>TopLeftX = 0, TopLeftY = 32, Width = 1280, Height = 960,
             MinDepth = 0, MaxDepth = 1\<rparr>,
           OMSetRenderTargets (Some 9), ClearRenderTargetView (Some 9),
           VSSetShader (Some 11), PSSetShader (Some 13), PSSetShaderResources 16,
           PSSetSamplers (Some 14), IASetPrimitiveTopology, IASetInputLayout, Draw 3 0,
           Present 0 512]"
proof -
  let ?s1 = "main_iter quiet_tick showing_session"
  let ?r1 = "ready_renderer\<lparr>srv := Some 16, dynTex := Some 15, texW := 64, texH := 48\<rparr>"
  have k: "\<not> fpsKey quiet_tick" "\<not> vsyncKey quiet_tick" "gpu quiet_tick = device_reply True 256"
    by (simp_all add: quiet_tick_def)
  have rf: "readFrame (tb showing_session) = Some (black_frame 64 48)"
    by (simp add: showing_relay readFrame_def tryRead_def deref_def)
  note sh3 = main_iter_shows(3) [OF showing_first(3), of quiet_tick]
  note sh4 = main_iter_shows(4) [OF showing_first(3), of quiet_tick]
  have t2: "tb (main_iter quiet_tick ?s1) = tb showing_session"
    using sh3 by (simp add: inputs_done_flags k showing_first)
  have same: "ensureTexture (device_reply True 256) 64 48 (?r1, world ?s1) = (?r1, world ?s1)"
    by (simp add: ensureTexture_same)
  have up: "world (main_iter quiet_tick ?s1)
      = snd (render False (uploadFrame (device_reply True 256) (black_frame 64 48)
          (?r1, world ?s1)))"
    using sh4 t2
    by (simp add: inputs_done_flags k showing_first showing_relay deref_def prod_eq_iff)
  have uf: "fst (uploadFrame (device_reply True 256) (black_frame 64 48) (?r1, world ?s1)) = ?r1"
    by (simp add: uploadFrame_fst black_frame_size same)
  have uc: "calls (snd (uploadFrame (device_reply True 256) (black_frame 64 48) (?r1, world ?s1)))
      = calls (world ?s1) @ [MapWriteDiscard 15, Unmap 15]"
    by (simp add: uploadFrame_calls black_frame_size same device_reply_sel)
  have lb: "letterbox ?r1 = \<lparr>TopLeftX = 0, TopLeftY = 32, Width = 1280, Height = 960,
             MinDepth = 0, MaxDepth = 1\<rparr>"
    by (simp add: letterbox_def ready_renderer_def Let_def)
  have "calls (world (main_iter quiet_tick ?s1))
      = calls (world ?s1) @ [MapWriteDiscard 15, Unmap 15]
        @ [RSSetViewports (letterbox ?r1), OMSetRenderTargets (Some 9),
           ClearRenderTargetView (Some 9), VSSetShader (Some 11), PSSetShader (Some 13),
           PSSetShaderResources 16, PSSetSamplers (Some 14), IASetPrimitiveTopology,
           IASetInputLayout, Draw 3 0, Present 0 512]"
  proof -
    have sv: "srv ?r1 = Some 16" "rtv ?r1 = Some 9" "tearingOk ?r1" "vs ?r1 = Some 11"
      "ps ?r1 = Some 13" "sampler ?r1 = Some 14"
      by (simp_all add: ready_renderer_def)
    have "srv (fst (uploadFrame (device_reply True 256) (black_frame 64 48) (?r1, world ?s1)))
        = Some 16"
      by (simp only: uf sv)
    from render_calls [OF this, of False] show ?thesis
      by (simp only: up uf uc sv) (simp add: DXGI_PRESENT_ALLOW_TEARING_def)
  qed
  then show ?thesis
    using rf by (simp add: lb showing_first)
qed

theorem C9_consumer_polls_witness:
  "no_frame (tb (showing_session\<lparr>tb := init_TripleBuffer\<rparr>))
   \<and> calls (world (main_iter quiet_tick (showing_session\<lparr>tb := init_TripleBuffer\<rparr>)))
      = calls (world (showing_session\<lparr>tb := init_TripleBuffer\<rparr>)) @ [Sleep 1]
   \<and> \<not> no_frame (tb showing_session)
   \<and> tryRead (tb showing_session) = Some 0
   \<and> (dx (main_iter quiet_tick showing_session), world (main_iter quiet_tick showing_session))
      = render False (uploadFrame (device_reply True 256) (black_frame 64 48)
          (ready_renderer, ready_world))"
proof -
  have n: "no_frame (tb (showing_session\<lparr>tb := init_TripleBuffer\<rparr>))"
    by (simp add: no_frame_def readFrame_init)
  have k: "\<not> fpsKey quiet_tick" "\<not> vsyncKey quiet_tick" "gpu quiet_tick = device_reply True 256"
    by (simp_all add: quiet_tick_def)
  have f: "g_showFPS showing_session = False" "g_vsync showing_session = False"
    "dx showing_session = ready_renderer" "world showing_session = ready_world"
    by (simp_all add: showing_session_def)
  from C9_consumer_polls [of "showing_session\<lparr>tb := init_TripleBuffer\<rparr>" quiet_tick] n
  have a: "calls (world (main_iter quiet_tick (showing_session\<lparr>tb := init_TripleBuffer\<rparr>)))
      = calls (world (showing_session\<lparr>tb := init_TripleBuffer\<rparr>)) @ [Sleep 1]"
    by blast
  from C9_consumer_polls [of showing_session quiet_tick] showing_no_frame
  have b: "tryRead (tb showing_session) = Some (nat (latest (tb showing_session)))
     \<and> (dx (main_iter quiet_tick showing_session), world (main_iter quiet_tick showing_session))
           = render (g_vsync (inputs_done quiet_tick showing_session))
               (uploadFrame (gpu quiet_tick)
                  (deref (tb (main_iter quiet_tick showing_session))
                     (nat (latest (tb showing_session))))
                  (dx showing_session,
                   if g_showFPS (inputs_done quiet_tick showing_session)
                   then emit (PutText (nat (latest (tb showing_session)))) (world showing_session)
                   else world showing_session))"
    by blast
  from b have "tryRead (tb showing_session) = Some 0
     \<and> (dx (main_iter quiet_tick showing_session), world (main_iter quiet_tick showing_session))
      = render False (uploadFrame (device_reply True 256) (black_frame 64 48)
          (ready_renderer, ready_world))"
    by (simp add: inputs_done_flags k f showing_first(1) showing_relay deref_def)
  with n a showing_no_frame show ?thesis
    by simp
qed

lemma ensureTexture_calls_grow:
  "\<exists>cs. calls (snd (ensureTexture g w h s)) = calls (snd s) @ cs"
proof (cases "texW (fst s) = w \<and> texH (fst s) = h")
  case True
  then show ?thesis by (simp add: ensureTexture_same)
next
  case False
  then have d: "texW (fst s) \<noteq> w \<or> texH (fst s) \<noteq> h" by simp
  show ?thesis
  proof (cases "tex_ok g")
    case True
    from ensureTexture_created(2) [OF d True, of "snd s"] show ?thesis by simp
  next
    case False
    from ensureTexture_failed(2) [OF d False, of "snd s"] show ?thesis by simp
  qed
qed

lemma uploadFrame_calls_grow:
  "\<exists>cs. calls (snd (uploadFrame g f s)) = calls (snd s) @ cs"
  using ensureTexture_calls_grow [of g "cols f" "rows f" s]
  by (auto simp: uploadFrame_calls)

lemma render_calls_grow: "\<exists>cs. calls (snd (render v s)) = calls (snd s) @ cs"
  by (cases "srv (fst s)") (auto simp: render_def Let_def emit_def)

lemma overlay_no_frame: "\<not> no_frame (tb overlay_session)"
  using showing_no_frame by (simp add: overlay_session_def)

text \<open>
  Claim C3, as amended. A pass of the capture loop changes no slot but the write slot,
  which is never the latest one. A pass of the main loop leaves the relay as it is when
  there is no frame or the overlay flag is off; \<^verbatim>\<open>uploadFrame\<close> and \<^verbatim>\<open>render\<close> never
  receive the relay. When the overlay flag is on, the pass replaces the content of the
  very slot \<^verbatim>\<open>tryRead\<close> returned by what \<^verbatim>\<open>cv::putText\<close> drew into it.
\<close>

theorem C3_writers_of_published_slot:
  "(relay_inv b
    \<longrightarrow> (\<forall>i. i \<noteq> nat (writing b) \<longrightarrow> deref (fst (captureIter rd (b, wd))) i = deref b i)
        \<and> (0 \<le> latest b \<longrightarrow> nat (latest b) \<noteq> nat (writing b)))
   \<and> (no_frame (tb s) \<or> \<not> g_showFPS (inputs_done t s) \<longrightarrow> tb (main_iter t s) = tb s)
   \<and> (\<not> no_frame (tb s) \<and> g_showFPS (inputs_done t s)
    \<longrightarrow> tryRead (tb s) = Some (nat (latest (tb s)))
        \<and> tb (main_iter t s)
          = (tb s)\<lparr>bufs := (bufs (tb s))[nat (latest (tb s))
                       := putText t (deref (tb s) (nat (latest (tb s))))]\<rparr>
        \<and> PutText (nat (latest (tb s))) \<in> set (calls (world (main_iter t s))))"
proof (intro conjI impI allI)
  fix i
  assume inv: "relay_inv b" and i: "i \<noteq> nat (writing b)"
  show "deref (fst (captureIter rd (b, wd))) i = deref b i"
  proof (cases "fst rd \<and> \<not> empty_Mat (snd rd)")
    case True
    then show ?thesis
      using captureIter_publish [OF inv, of rd wd] i
      by (simp add: deref_def commitWrite_def Let_def fillSlot_def)
  next
    case False
    then show ?thesis
      using captureIter_skip [OF inv False, of wd] i
      by (simp add: deref_def fillSlot_def)
  qed
next
  assume "relay_inv b" and "0 \<le> latest b"
  then show "nat (latest b) \<noteq> nat (writing b)"
    by (auto simp: relay_inv_def eq_nat_nat_iff)
next
  assume a: "no_frame (tb s) \<or> \<not> g_showFPS (inputs_done t s)"
  show "tb (main_iter t s) = tb s"
  proof (cases "no_frame (tb s)")
    case True
    then show ?thesis by (simp add: main_iter_idle inputs_done_keeps)
  next
    case False
    with a main_iter_shows(3) [OF False, of t] show ?thesis by simp
  qed
next
  assume a: "\<not> no_frame (tb s) \<and> g_showFPS (inputs_done t s)"
  then have n: "\<not> no_frame (tb s)" and f: "g_showFPS (inputs_done t s)" by simp_all
  show "tryRead (tb s) = Some (nat (latest (tb s)))"
    by (rule main_iter_shows(1) [OF n])
  show "tb (main_iter t s)
          = (tb s)\<lparr>bufs := (bufs (tb s))[nat (latest (tb s))
                       := putText t (deref (tb s) (nat (latest (tb s))))]\<rparr>"
    using main_iter_shows(3) [OF n, of t] f by simp
  let ?w = "emit (PutText (nat (latest (tb s)))) (world s)"
  let ?u = "uploadFrame (gpu t) (deref (tb (main_iter t s)) (nat (latest (tb s)))) (dx s, ?w)"
  have w: "world (main_iter t s) = snd (render (g_vsync (inputs_done t s)) ?u)"
    using main_iter_shows(4) [OF n, of t] f by (simp add: prod_eq_iff)
  obtain c1 where c1: "calls (snd ?u) = calls ?w @ c1"
    using uploadFrame_calls_grow [of "gpu t" _ "(dx s, ?w)"] by auto
  obtain c2 where c2: "calls (snd (render (g_vsync (inputs_done t s)) ?u)) = calls (snd ?u) @ c2"
    using render_calls_grow by blast
  show "PutText (nat (latest (tb s))) \<in> set (calls (world (main_iter t s)))"
    by (simp only: w c2 c1) (simp add: emit_def)
qed

text \<open>
  The claim as stated fails: with the overlay on, the main loop calls \<^verbatim>\<open>cv::putText\<close> on
  slot 0, the slot \<^verbatim>\<open>tryRead\<close> returned, and a byte of the published frame changes.
\<close>

theorem C3_counterexample:
  "tryRead (tb overlay_session) = Some 0
   \<and> PutText 0 \<in> set (calls (world (main_iter quiet_tick overlay_session)))
   \<and> pixels (deref (tb overlay_session) 0) ! 3906 = 0
   \<and> pixels (deref (tb (main_iter quiet_tick overlay_session)) 0) ! 3906 = 160"
proof -
  have k: "\<not> fpsKey quiet_tick" "putText quiet_tick = stamp"
    by (simp_all add: quiet_tick_def)
  have r: "tb overlay_session =
     \<lparr>bufs = [black_frame 64 48, blank_Mat, blank_Mat], latest = 0, writing = 1\<rparr>"
    by (simp add: overlay_session_def showing_relay)
  have f: "g_showFPS (inputs_done quiet_tick overlay_session)"
    by (simp add: inputs_done_flags k overlay_session_def)
  have t1: "tb (main_iter quiet_tick overlay_session)
      = \<lparr>bufs = [stamp (black_frame 64 48), blank_Mat, blank_Mat], latest = 0, writing = 1\<rparr>"
    using main_iter_shows(3) [OF overlay_no_frame, of quiet_tick] f
    by (simp add: r k deref_def)
  let ?w = "emit (PutText 0) (world overlay_session)"
  let ?u = "uploadFrame (gpu quiet_tick) (stamp (black_frame 64 48)) (dx overlay_session, ?w)"
  have w: "world (main_iter quiet_tick overlay_session)
      = snd (render (g_vsync (inputs_done quiet_tick overlay_session)) ?u)"
    using main_iter_shows(4) [OF overlay_no_frame, of quiet_tick] f
    by (simp add: prod_eq_iff r t1 deref_def)
  obtain c1 where c1: "calls (snd ?u) = calls ?w @ c1"
    using uploadFrame_calls_grow [of "gpu quiet_tick" _ "(dx overlay_session, ?w)"] by auto
  obtain c2 where c2: "calls (snd (render (g_vsync (inputs_done quiet_tick overlay_session)) ?u))
      = calls (snd ?u) @ c2"
    using render_calls_grow by blast
  have p: "PutText 0 \<in> set (calls (world (main_iter quiet_tick overlay_session)))"
    by (simp only: w c2 c1) (simp add: emit_def)
  have a: "pixels (deref (tb overlay_session) 0) ! 3906 = 0"
    by (simp add: r deref_def black_frame_def)
  have b: "pixels (deref (tb (main_iter quiet_tick overlay_session)) 0) ! 3906 = 160"
    by (simp add: t1 deref_def stamp_def black_frame_def)
  show ?thesis
    using p a b by (simp add: r tryRead_def)
qed

theorem C3_writers_of_published_slot_witness:
  "relay_inv (tb showing_session)
   \<and> deref (fst (captureIter (True, black_frame 64 48) (tb showing_session, new_World))) 0
      = black_frame 64 48
   \<and> \<not> g_showFPS (inputs_done quiet_tick showing_session)
   \<and> tb (main_iter quiet_tick showing_session) = tb showing_session
   \<and> \<not> no_frame (tb overlay_session) \<and> g_showFPS (inputs_done quiet_tick overlay_session)
   \<and> PutText 0 \<in> set (calls (world (main_iter quiet_tick overlay_session)))"
proof -
  have inv: "relay_inv (tb showing_session)"
    by (simp add: showing_relay relay_inv_def)
  have k: "\<not> fpsKey quiet_tick"
    by (simp add: quiet_tick_def)
  have off: "\<not> g_showFPS (inputs_done quiet_tick showing_session)"
    by (simp add: inputs_done_flags k showing_session_def)
  have on: "g_showFPS (inputs_done quiet_tick overlay_session)"
    by (simp add: inputs_done_flags k overlay_session_def)
  have l: "latest (tb overlay_session) = 0"
    by (simp add: overlay_session_def showing_relay)
  from C3_writers_of_published_slot [of "tb showing_session" "(True, black_frame 64 48)"
      new_World showing_session quiet_tick] inv off
  have a: "deref (fst (captureIter (True, black_frame 64 48) (tb showing_session, new_World))) 0
      = deref (tb showing_session) 0
     \<and> tb (main_iter quiet_tick showing_session) = tb showing_session"
    by (simp add: showing_relay)
  from C3_writers_of_published_slot [of "tb showing_session" "(True, black_frame 64 48)"
      new_World overlay_session quiet_tick] overlay_no_frame on
  have b: "PutText 0 \<in> set (calls (world (main_iter quiet_tick overlay_session)))"
    by (simp add: l)
  from a b inv off on overlay_no_frame show ?thesis
    by (simp add: showing_relay deref_def)
qed

section \<open>Properties of the upload and the pixel shader\<close>

lemma bgra_nth:
  "length xs = 3 * n \<Longrightarrow> x < n \<Longrightarrow> c < 4 \<Longrightarrow>
   cvtColor_BGR2BGRA xs ! (4 * x + c) = (if c < 3 then xs ! (3 * x + c) else 255)"
proof (induction xs arbitrary: n x rule: cvtColor_BGR2BGRA.induct)
  case (1 b g r xs)
  then obtain m where n: "n = Suc m" by (cases n) auto
  show ?case
  proof (cases x)
    case 0
    with "1.prems"(3) have "c = 0 \<or> c = 1 \<or> c = 2 \<or> c = 3" by arith
    with 0 show ?thesis by auto
  next
    case (Suc x')
    from "1.prems" n Suc have l: "length xs = 3 * m" and x': "x' < m" by simp_all
    have a: "4 * x + c = Suc (Suc (Suc (Suc (4 * x' + c))))" using Suc by simp
    have b: "3 * x + c = Suc (Suc (Suc (3 * x' + c)))" using Suc by simp
    show ?thesis
      using "1.IH" [OF l x' "1.prems"(3)] by (simp add: a b)
  qed
qed auto

lemma srcRow_length:
  "y * step f + 3 * nat (cols f) \<le> length (pixels f) \<Longrightarrow>
   length (srcRow f y) = 3 * nat (cols f)"
  by (simp add: srcRow_def)

lemma srcRow_nth:
  "y * step f + 3 * nat (cols f) \<le> length (pixels f) \<Longrightarrow> k < 3 * nat (cols f) \<Longrightarrow>
   srcRow f y ! k = pixels f ! (y * step f + k)"
  by (simp add: srcRow_def)

lemma copy_row_inside:
  assumes "y * step f + 3 * nat (cols f) \<le> length (pixels f)" "x < nat (cols f)" "c < 4"
  shows "copy_row f pitch dst y (y * pitch + 4 * x + c)
         = (if c < 3 then pixels f ! (y * step f + 3 * x + c) else 255)"
proof -
  have r: "y * pitch + 4 * x + c < y * pitch + nat (cols f) * 4"
    using assms(2,3) by arith
  have "copy_row f pitch dst y (y * pitch + 4 * x + c)
        = cvtColor_BGR2BGRA (srcRow f y) ! (4 * x + c)"
    using r by (simp add: copy_row_def memcpy_def add.assoc)
  also have "\<dots> = (if c < 3 then srcRow f y ! (3 * x + c) else 255)"
    by (rule bgra_nth [OF srcRow_length [OF assms(1)] assms(2,3)])
  also have "\<dots> = (if c < 3 then pixels f ! (y * step f + 3 * x + c) else 255)"
    using srcRow_nth [OF assms(1), of "3 * x + c"] assms(2) by (auto simp: add.assoc)
  finally show ?thesis .
qed

lemma copy_row_outside:
  "a < y * pitch \<or> y * pitch + nat (cols f) * 4 \<le> a \<Longrightarrow> copy_row f pitch dst y a = dst a"
  by (auto simp: copy_row_def memcpy_def)

lemma rows_fold:
  assumes "4 * nat (cols f) \<le> pitch" "n * step f \<le> length (pixels f)"
    "3 * nat (cols f) \<le> step f" "y < n" "x < nat (cols f)" "c < 4"
  shows "foldl (copy_row f pitch) dst [0..<n] (y * pitch + 4 * x + c)
         = (if c < 3 then pixels f ! (y * step f + 3 * x + c) else 255)"
  using assms(2,4)
proof (induction n)
  case 0
  then show ?case by simp
next
  case (Suc n)
  have fit: "k * step f + 3 * nat (cols f) \<le> length (pixels f)" if "k \<le> n" for k
  proof -
    have "k * step f + step f \<le> Suc n * step f"
      using that by (metis Suc_le_mono add.commute mult_Suc mult_le_mono1)
    with assms(3) Suc.prems(1) show ?thesis by linarith
  qed
  show ?case
  proof (cases "y = n")
    case True
    then show ?thesis
      using copy_row_inside [OF fit [of n] assms(5,6)] by simp
  next
    case False
    with Suc.prems have y: "y < n" by simp
    have "y * pitch + pitch \<le> n * pitch"
      using y by (metis Suc_leI add.commute mult_Suc mult_le_mono1)
    then have out: "y * pitch + 4 * x + c < n * pitch"
      using assms(1,5,6) by linarith
    have len: "n * step f \<le> length (pixels f)"
      using Suc.prems(1) by simp
    show ?thesis
      using Suc.IH [OF len y] out by (simp add: copy_row_outside)
  qed
qed

lemma to_unorm8_of_nat:
  assumes "n < 256"
  shows "to_unorm8 (real n / 255) = word_of_nat n"
proof -
  have q: "0 \<le> real n / 255" "real n / 255 \<le> 1"
    using assms by simp_all
  have "max 0 (min 1 (real n / 255)) * 255 + 1 / 2 = real n + 1 / 2"
    using q by (simp add: min_def max_def)
  moreover have "\<lfloor>real n + 1 / 2\<rfloor> = int n"
    by (simp add: floor_unique)
  ultimately show ?thesis
    by (simp add: to_unorm8_def)
qed

lemma to_unorm8_unorm8: "to_unorm8 (unorm8 v) = v"
proof -
  have "unat v < 256"
    using unsigned_less [of v, where ?'a = nat] by simp
  from to_unorm8_of_nat [OF this] show ?thesis
    unfolding unorm8_def by simp
qed

lemma to_unorm8_one: "to_unorm8 1 = 255"
  by (simp add: to_unorm8_def)

lemma src_pixel_bytes:
  assumes "nat (rows f) * step f \<le> length (pixels f)" "3 * nat (cols f) \<le> step f"
    "y < nat (rows f)" "x < nat (cols f)"
  shows "src_pixel f x y
         = [pixels f ! (y * step f + 3 * x), pixels f ! (y * step f + 3 * x + 1),
            pixels f ! (y * step f + 3 * x + 2)]"
proof -
  have "y * step f + step f \<le> nat (rows f) * step f"
    using assms(3) by (metis Suc_leI add.commute mult_Suc mult_le_mono1)
  with assms have l: "y * step f + 3 * x + 3 \<le> length (pixels f)"
    by linarith
  have "length (src_pixel f x y) = 3"
    using l by (simp add: src_pixel_def)
  moreover have "src_pixel f x y ! k = pixels f ! (y * step f + 3 * x + k)" if "k < 3" for k
    using that l by (simp add: src_pixel_def)
  ultimately show ?thesis
    by (auto simp: list_eq_iff_nth_eq less_Suc_eq numeral_3_eq_3)
qed

lemma uploadFrame_vram:
  assumes "map_ok g" "dynTex (fst (uploadFrame g f s)) = Some t"
  shows "vram (snd (uploadFrame g f s)) t = upload_rows f (RowPitch g) (pData g)"
    and "vpitch (snd (uploadFrame g f s)) t = RowPitch g"
  using assms by (auto simp: uploadFrame_def Let_def emit_def split: option.splits)

text \<open>
  Claim C5. Take a frame whose rows lie \<open>step\<close> bytes apart with \<open>3 * cols \<le> step\<close>, whose
  buffer holds \<open>rows * step\<close> bytes, and a mapping with a row pitch of at least
  \<open>4 * cols\<close>. After \<^verbatim>\<open>uploadFrame\<close> the texel at column \<open>x\<close> of row \<open>y\<close> holds the three
  bytes of the source pixel, blue, green, red, and the alpha byte 255, which the shader
  reads as \<open>(B / 255, G / 255, R / 255, 1)\<close>. The pixel shader returns
  \<open>(R / 255, G / 255, B / 255, 1)\<close>: the three values are those that were read, in the
  other order, and alpha is the constant 1. Stored in the target's format this is the
  pixel \<open>(R, G, B)\<close> with alpha 255. Source \<open>(B = 10, G = 20, R = 30)\<close> is presented as
  \<open>(R = 30, G = 20, B = 10)\<close>. The arithmetic is that of the reals.
\<close>

theorem C5_channel_order:
  assumes "3 * nat (cols f) \<le> step f" "nat (rows f) * step f \<le> length (pixels f)"
    "4 * nat (cols f) \<le> RowPitch g" "map_ok g" "dynTex (fst (uploadFrame g f s)) = Some t"
    "x < nat (cols f)" "y < nat (rows f)"
  shows
    "length (src_pixel f x y) = 3
     \<and> load_texel (vram (snd (uploadFrame g f s)) t) (vpitch (snd (uploadFrame g f s)) t) x y
       = float4 (unorm8 (src_pixel f x y ! 0)) (unorm8 (src_pixel f x y ! 1))
           (unorm8 (src_pixel f x y ! 2)) (unorm8 255)
     \<and> ps_main (load_texel (vram (snd (uploadFrame g f s)) t)
           (vpitch (snd (uploadFrame g f s)) t) x y)
       = float4 (unorm8 (src_pixel f x y ! 2)) (unorm8 (src_pixel f x y ! 1))
           (unorm8 (src_pixel f x y ! 0)) 1
     \<and> present_texel (snd (uploadFrame g f s)) t x y
       = [src_pixel f x y ! 2, src_pixel f x y ! 1, src_pixel f x y ! 0, 255]"
proof -
  note px = src_pixel_bytes [OF assms(2,1,7,6)]
  note vr = uploadFrame_vram [OF assms(4,5)]
  have at: "upload_rows f (RowPitch g) (pData g) (y * RowPitch g + 4 * x + c)
      = (if c < 3 then pixels f ! (y * step f + 3 * x + c) else 255)" if "c < 4" for c
    unfolding upload_rows_def by (rule rows_fold [OF assms(3,2,1,7,6) that])
  have tx: "load_texel (vram (snd (uploadFrame g f s)) t) (vpitch (snd (uploadFrame g f s)) t) x y
       = float4 (unorm8 (src_pixel f x y ! 0)) (unorm8 (src_pixel f x y ! 1))
           (unorm8 (src_pixel f x y ! 2)) (unorm8 255)"
    using at [of 0] at [of 1] at [of 2] at [of 3]
    by (simp add: load_texel_def Let_def vr px)
  show ?thesis
    by (simp add: tx present_texel_def ps_main_def store_pixel_def to_unorm8_unorm8
        to_unorm8_one) (simp add: px)
qed

theorem C5_channel_order_witness:
  "3 * nat (cols bgr_frame) \<le> step bgr_frame
   \<and> nat (rows bgr_frame) * step bgr_frame \<le> length (pixels bgr_frame)
   \<and> 4 * nat (cols bgr_frame) \<le> RowPitch (device_reply True 256)
   \<and> map_ok (device_reply True 256)
   \<and> dynTex (fst (uploadFrame (device_reply True 256) bgr_frame (ready_renderer, ready_world)))
      = Some 15
   \<and> (0::nat) < nat (cols bgr_frame) \<and> (0::nat) < nat (rows bgr_frame)
   \<and> src_pixel bgr_frame 0 0 = [10, 20, 30]
   \<and> present_texel
        (snd (uploadFrame (device_reply True 256) bgr_frame (ready_renderer, ready_world)))
        15 0 0
      = [30, 20, 10, 255]"
proof -
  have h: "3 * nat (cols bgr_frame) \<le> step bgr_frame"
    "nat (rows bgr_frame) * step bgr_frame \<le> length (pixels bgr_frame)"
    "4 * nat (cols bgr_frame) \<le> RowPitch (device_reply True 256)"
    "map_ok (device_reply True 256)"
    by (simp_all add: bgr_frame_def device_reply_def)
  have d: "texW ready_renderer \<noteq> cols bgr_frame \<or> texH ready_renderer \<noteq> rows bgr_frame"
    by (simp add: ready_renderer_def bgr_frame_def)
  have t: "dynTex (fst (uploadFrame (device_reply True 256) bgr_frame
      (ready_renderer, ready_world))) = Some 15"
    using ensureTexture_created(1) [OF d, of "device_reply True 256" ready_world]
    by (simp add: uploadFrame_fst device_reply_sel ready_world_def)
  have p: "(0::nat) < nat (cols bgr_frame)" "(0::nat) < nat (rows bgr_frame)"
    by (simp_all add: bgr_frame_def)
  have sp: "src_pixel bgr_frame 0 0 = [10, 20, 30]"
    by (simp add: src_pixel_def bgr_frame_def)
  from C5_channel_order [OF h t p]
  have "present_texel
        (snd (uploadFrame (device_reply True 256) bgr_frame (ready_renderer, ready_world)))
        15 0 0 = [30, 20, 10, 255]"
    by (simp add: sp)
  with h t p sp show ?thesis
    by simp
qed

section \<open>Properties of initialisation and teardown\<close>

lemma acquire_push: "acquire wd = (fresh wd, push wd)"
  by (simp add: acquire_def push_def)

lemma acquire_if_push: "acquire_if ok wd = (if ok then (Some (fresh wd), push wd) else (None, wd))"
  by (simp add: acquire_if_def acquire_push)

lemma push_sel: "live (push wd) = fresh wd # live wd" "fresh (push wd) = Suc (fresh wd)"
  "calls (push wd) = calls wd" "vram (push wd) = vram wd" "vpitch (push wd) = vpitch wd"
  by (simp_all add: push_def)

lemma release_ref_sel: "live (release_ref p wd) = remove1 p (live wd)"
  "fresh (release_ref p wd) = fresh wd" "calls (release_ref p wd) = calls wd @ [Release p]"
  "vram (release_ref p wd) = vram wd" "vpitch (release_ref p wd) = vpitch wd"
  by (simp_all add: release_ref_def emit_def)

lemma emit_sel: "live (emit c wd) = live wd" "fresh (emit c wd) = fresh wd"
  "calls (emit c wd) = calls wd @ [c]" "vram (emit c wd) = vram wd"
  "vpitch (emit c wd) = vpitch wd"
  by (simp_all add: emit_def)

lemma init_swapchain_failure:
  assumes "createDevice_ok g" "\<not> createSwapChain_ok g"
  shows "fst (init g w h (r, wd)) = False"
    and "live (snd (snd (init g w h (r, wd)))) = Suc (fresh wd) # fresh wd # live wd"
    and "fresh (snd (snd (init g w h (r, wd))))
         = (if factory5_ok g then fresh wd + 6 else fresh wd + 5)"
    and "device (fst (snd (init g w h (r, wd)))) = Some (fresh wd)"
    and "ctx (fst (snd (init g w h (r, wd)))) = Some (Suc (fresh wd))"
  using assms
  by (simp_all add: init_def acquire_push acquire_if_push push_sel release_ref_sel emit_sel
      release_opt_def Let_def)

lemma swap_fails_sel: "createDevice_ok swap_fails" "\<not> createSwapChain_ok swap_fails"
  "factory5_ok swap_fails"
  by (simp_all add: swap_fails_def)

lemma init_swapchain_failure_calls:
  assumes "createDevice_ok g" "\<not> createSwapChain_ok g" "factory5_ok g"
  shows "calls (snd (snd (init g w h (r, wd))))
         = calls wd @ [Release (fresh wd + 3), Release (fresh wd + 2), Release (fresh wd + 5),
             Cerr CreateSwapChainFailed, Release (fresh wd + 4)]"
  using assms
  by (simp add: init_def acquire_push acquire_if_push push_sel release_ref_sel emit_sel
      release_opt_def Let_def)

lemma refs_simps: "refs None = {#}" "refs (Some h) = {#h#}"
  by (simp_all add: refs_def)

lemma mset_live_release_opt: "mset (live (release_opt p wd)) = mset (live wd) - refs p"
  by (cases p) (simp_all add: release_opt_def release_ref_sel refs_simps)

lemma release_accounted:
  assumes "accounted B (r, wd)"
  shows "mset (live (release r wd)) = B"
proof -
  have "mset (live (release r wd)) =
      mset (live wd) - refs (sampler r) - refs (srv r) - refs (dynTex r) - refs (ps r)
        - refs (vs r) - refs (rtv r) - refs (swapChain r) - refs (ctx r) - refs (device r)"
    by (simp add: release_def mset_live_release_opt)
  also have "\<dots> = B"
    using assms by (simp add: accounted_def held_def)
  finally show ?thesis .
qed

lemma ensureTexture_accounted:
  assumes "accounted B s"
  shows "accounted B (ensureTexture g w h s)"
proof (cases "texW (fst s) = w \<and> texH (fst s) = h")
  case True
  with assms show ?thesis by (simp add: ensureTexture_same)
next
  case False
  obtain r wd where s: "s = (r, wd)" by (cases s)
  have a: "accounted B (release_srv s)"
    using assms by (cases "srv r")
      (simp_all add: s release_srv_def accounted_def held_def release_ref_sel refs_simps)
  obtain r1 w1 where s1: "release_srv s = (r1, w1)" by (cases "release_srv s")
  have sv: "srv r1 = None"
    using s1 by (cases "srv r") (auto simp: s release_srv_def)
  have b: "accounted B (release_dynTex (r1, w1))"
    using a by (cases "dynTex r1")
      (simp_all add: s1 release_dynTex_def accounted_def held_def release_ref_sel refs_simps)
  obtain r2 w2 where s2: "release_dynTex (r1, w1) = (r2, w2)" by (cases "release_dynTex (r1, w1)")
  have n: "srv r2 = None" "dynTex r2 = None"
    using s2 sv by (cases "dynTex r1"; auto simp: release_dynTex_def)+
  from b s2 n have m: "mset (live w2) = held r2 + B" "refs (srv r2) = {#}" "refs (dynTex r2) = {#}"
    by (simp_all add: accounted_def refs_simps)
  show ?thesis
    using False m n
    by (auto simp: s ensureTexture_def s1 [unfolded s] s2 Let_def accounted_def held_def
        create_srv_def acquire_push push_sel emit_sel refs_simps)
qed

lemma uploadFrame_accounted: "accounted B s \<Longrightarrow> accounted B (uploadFrame g f s)"
  using ensureTexture_accounted [of B s g "cols f" "rows f"]
  by (simp add: accounted_def uploadFrame_fst uploadFrame_live)

lemma render_live: "live (snd (render v s)) = live (snd s)"
  by (cases "srv (fst s)") (simp_all add: render_def Let_def emit_def)

lemma render_accounted: "accounted B s \<Longrightarrow> accounted B (render v s)"
  by (simp add: accounted_def render_fst render_live)

lemma main_iter_accounted:
  assumes "accounted B (dx s, world s)"
  shows "accounted B (dx (main_iter t s), world (main_iter t s))"
proof (cases "no_frame (tb s)")
  case True
  with assms show ?thesis
    by (simp add: main_iter_idle inputs_done_keeps accounted_def emit_sel)
next
  case False
  have "accounted B (dx s, if g_showFPS (inputs_done t s)
                         then emit (PutText (nat (latest (tb s)))) (world s) else world s)"
    using assms by (simp add: accounted_def emit_sel)
  then show ?thesis
    unfolding main_iter_shows(4) [OF False]
    by (intro render_accounted uploadFrame_accounted)
qed

lemma capture_event_accounted:
  "accounted B (dx s, world s) \<Longrightarrow>
   accounted B (dx (capture_event rd s), world (capture_event rd s))"
  using captureIter_world [of rd "(tb s, world s)"]
  by (simp add: capture_event_def case_prod_beta)

lemma main_loop_accounted:
  "accounted B (dx s, world s) \<Longrightarrow> main_loop es s = Some s' \<Longrightarrow>
   accounted B (dx s', world s')"
proof (induction es s rule: main_loop.induct)
  case (1 s)
  then show ?case by (simp split: if_splits)
next
  case (2 rd es s)
  then show ?case by (simp add: capture_event_accounted)
next
  case (3 t es s)
  then show ?case by (simp add: main_iter_accounted split: if_splits)
qed

lemma mset_live_release_ref: "mset (live (release_ref p wd)) = mset (live wd) - {#p#}"
  by (simp add: release_ref_sel)

lemma rebuildRTV_accounted:
  assumes "accounted B (r, wd)"
  shows "accounted B (snd (rebuildRTV g (r, wd)))"
  using assms
  by (cases "rtv r")
     (auto simp: rebuildRTV_def accounted_def held_def acquire_if_push push_sel emit_sel
       release_opt_def mset_live_release_ref refs_simps Let_def)

lemma rebuildRTV_keeps:
  "vs (fst (snd (rebuildRTV g s))) = vs (fst s)" "ps (fst (snd (rebuildRTV g s))) = ps (fst s)"
  "sampler (fst (snd (rebuildRTV g s))) = sampler (fst s)"
  by (auto simp: rebuildRTV_def acquire_if_push Let_def)

lemma compileShaders_accounted:
  assumes "accounted B (r, wd)" "vs r = None" "ps r = None" "no_stray_messages g"
  shows "accounted B (snd (compileShaders g (r, wd)))"
  using assms
  by (auto simp: compileShaders_def accounted_def held_def acquire_if_push push_sel emit_sel
       release_opt_def mset_live_release_ref refs_simps Let_def no_stray_messages_def)

lemma compileShaders_keeps:
  "sampler (fst (snd (compileShaders g s))) = sampler (fst s)"
  by (auto simp: compileShaders_def acquire_if_push Let_def)

lemma init_pipeline_accounted:
  assumes "accounted B s" "vs (fst s) = None" "ps (fst s) = None" "sampler (fst s) = None"
    "no_stray_messages g"
  shows "accounted B (snd (init_pipeline g s))"
proof -
  obtain r wd where s: "s = (r, wd)" by (cases s)
  obtain ok1 r4 wd12 where rb: "rebuildRTV g (r, wd) = (ok1, r4, wd12)"
    by (cases "rebuildRTV g (r, wd)") auto
  have a4: "accounted B (r4, wd12)"
    using rebuildRTV_accounted [of B r wd g] assms(1) by (simp add: s rb)
  have k4: "vs r4 = None" "ps r4 = None" "sampler r4 = None"
    using rebuildRTV_keeps [of g "(r, wd)"] assms(2-4) by (simp_all add: s rb)
  obtain ok2 r5 wd13 where cs: "compileShaders g (r4, wd12) = (ok2, r5, wd13)"
    by (cases "compileShaders g (r4, wd12)") auto
  have a5: "accounted B (r5, wd13)"
    using compileShaders_accounted [OF a4 k4(1,2) assms(5)] by (simp add: cs)
  have k5: "sampler r5 = None"
    using compileShaders_keeps [of g "(r4, wd12)"] k4(3) by (simp add: cs)
  have a6: "accounted B (r5\<lparr>sampler := fst (acquire_if (createSampler_ok g) wd13)\<rparr>,
      snd (acquire_if (createSampler_ok g) wd13))"
    using a5 k5
    by (simp add: accounted_def held_def acquire_if_push push_sel refs_simps)
  show ?thesis
    using a4 a5 a6
    by (simp add: init_pipeline_def s rb cs Let_def case_prod_beta)
qed

lemma init_accounted:
  assumes "no_stray_messages g"
  shows "accounted (mset (live wd)) (snd (init g w h (new_DX11Renderer, wd)))"
proof (cases "createDevice_ok g \<and> createSwapChain_ok g")
  case False
  then show ?thesis
    by (auto simp: init_def accounted_def held_def new_DX11Renderer_def acquire_push
        acquire_if_push push_sel emit_sel release_opt_def mset_live_release_ref refs_simps
        Let_def)
next
  case True
  then show ?thesis
    by (auto simp: init_def new_DX11Renderer_def acquire_push acquire_if_push
        release_opt_def Let_def
        intro!: init_pipeline_accounted [OF _ _ _ _ assms])
       (simp_all add: accounted_def held_def push_sel emit_sel mset_live_release_ref
         refs_simps)
qed

lemma enter_live:
  "mset (live (snd (snd (enter e)))) = add_mset (fst (snd (enter e))) (refs (fst (enter e)))"
  by (simp add: enter_def acquire_push acquire_if_push push_sel refs_simps new_World_def
      Let_def)

lemma open_session_live:
  "mset (live (snd (snd (open_session e wd))))
   = refs (fst (snd (open_session e wd))) + refs (cap (fst (open_session e wd)))
     + refs (captureThread (fst (open_session e wd)))
     + refs (thread_mmh (fst (open_session e wd))) + mset (live wd)"
  by (simp add: open_session_def acquire_push acquire_if_push push_sel refs_simps Let_def)

lemma stop_live:
  "mset (live (snd (stop (v, wd))))
   = mset (live wd) - refs (thread_mmh v) - refs (captureThread v) - refs (cap v)"
  by (simp add: stop_def Let_def mset_live_release_opt)

lemma stop_twice: "live (snd (stop (stop s))) = live (snd (stop s))"
  by (simp add: stop_def Let_def release_opt_def)

lemma main_early_exit:
  assumes "deviceId e < 0"
  shows "main e = Some (1, snd (snd (enter e)))"
  using assms by (simp add: main_def case_prod_beta Let_def)

lemma main_init_failure:
  assumes "0 \<le> deviceId e" "no_stray_messages (init_env e)"
    and "\<not> fst (init (init_env e) (screenW e) (screenH e)
            (new_DX11Renderer, snd (snd (open_session e (snd (snd (enter e)))))))"
  shows "\<exists>wd. main e = Some (1, wd)
     \<and> mset (live wd)
       = held (fst (snd (init (init_env e) (screenW e) (screenH e)
            (new_DX11Renderer, snd (snd (open_session e (snd (snd (enter e)))))))))
         + refs (fst (snd (open_session e (snd (snd (enter e))))))
         + add_mset (fst (snd (enter e))) (refs (fst (enter e)))"
proof -
  let ?wd2 = "snd (snd (enter e))"
  let ?os = "open_session e ?wd2"
  let ?i = "init (init_env e) (screenW e) (screenH e) (new_DX11Renderer, snd (snd ?os))"
  have acc: "mset (live (snd (snd ?i))) = held (fst (snd ?i)) + mset (live (snd (snd ?os)))"
    using init_accounted [OF assms(2), of "snd (snd ?os)" "screenW e" "screenH e"]
    by (simp add: accounted_def)
  have m: "main e = Some (1, snd (stop (stop (fst ?os, emit (Cerr DX11InitFailed) (snd (snd ?i))))))"
    using assms(1,3) by (simp add: main_def case_prod_beta Let_def)
  have "mset (live (snd (stop (stop (fst ?os, emit (Cerr DX11InitFailed) (snd (snd ?i)))))))
      = held (fst (snd ?i)) + refs (fst (snd ?os)) + add_mset (fst (snd (enter e))) (refs (fst (enter e)))"
    by (simp add: stop_twice stop_live emit_sel acc open_session_live enter_live)
  with m show ?thesis by simp
qed

lemma main_normal_exit:
  assumes "no_stray_messages (init_env e)" "main e = Some (0, wd)"
  shows "live wd = []"
proof -
  let ?wd2 = "snd (snd (enter e))"
  let ?os = "open_session e ?wd2"
  let ?i = "init (init_env e) (screenW e) (screenH e) (new_DX11Renderer, snd (snd ?os))"
  let ?s0 = "\<lparr>tb = init_TripleBuffer, dx = fst (snd ?i), world = snd (snd ?i), g_running = True,
            g_showFPS = False, g_vsync = False, ksFPS = False, ksVSync = False, ksExit = False\<rparr>"
  from assms(2) have d: "\<not> deviceId e < 0" and ok: "fst ?i"
    by (auto simp: main_def case_prod_beta Let_def split: if_splits)
  from assms(2) d ok obtain s where lp: "main_loop (events e) ?s0 = Some s"
    and wd: "wd = snd (stop (fst (stop (fst ?os, release (dx s) (world s))),
          emit (Cout SessionEnded) (release_ref (fst (snd (enter e)))
            (release_opt (fst (enter e)) (release_opt (fst (snd ?os))
               (snd (stop (fst ?os, release (dx s) (world s)))))))))"
    by (auto simp: main_def case_prod_beta Let_def split: option.splits)
  have acc0: "accounted (mset (live (snd (snd ?os)))) (dx ?s0, world ?s0)"
    using init_accounted [OF assms(1), of "snd (snd ?os)" "screenW e" "screenH e"] by simp
  have acc: "accounted (mset (live (snd (snd ?os)))) (dx s, world s)"
    by (rule main_loop_accounted [OF acc0 lp])
  have rel: "mset (live (release (dx s) (world s))) = mset (live (snd (snd ?os)))"
    by (rule release_accounted [OF acc])
  have st: "fst (stop (v, w)) = \<lparr>cap = None, captureThread = None, thread_mmh = None\<rparr>" for v w
    by (simp add: stop_def Let_def)
  have "mset (live wd) = {#}"
    unfolding wd st
    by (simp add: stop_live emit_sel mset_live_release_ref mset_live_release_opt
        rel open_session_live enter_live refs_simps)
  then show ?thesis by simp
qed

lemma init_all_ok_fst: "fst (init all_ok w h (r, wd))"
  by (simp add: init_def init_pipeline_def all_ok_def acquire_push acquire_if_push
      release_opt_def Let_def rebuildRTV_def compileShaders_def)

lemma init_all_ok_ready:
  "init all_ok 1280 1024 (new_DX11Renderer, new_World) = (True, ready_renderer, ready_world)"
proof -
  have a: "fst (snd (init all_ok 1280 1024 (new_DX11Renderer, new_World))) = ready_renderer"
    by (simp add: init_def init_pipeline_def all_ok_def acquire_push acquire_if_push push_sel
        release_ref_sel emit_sel release_opt_def Let_def new_World_def rebuildRTV_def
        compileShaders_def new_DX11Renderer_def ready_renderer_def)
  have b: "snd (snd (init all_ok 1280 1024 (new_DX11Renderer, new_World))) = ready_world"
    by (rule World.equality)
       (simp_all add: init_def init_pipeline_def all_ok_def acquire_push acquire_if_push
         push_sel release_ref_sel emit_sel release_opt_def Let_def new_World_def
         rebuildRTV_def compileShaders_def new_DX11Renderer_def ready_world_def)
  show ?thesis
    using a b init_all_ok_fst [of 1280 1024 new_DX11Renderer new_World]
    by (simp add: prod_eq_iff)
qed

lemma show_frame_running: "g_running (show_frame t s) = g_running s"
  by (simp add: show_frame_def Let_def case_prod_beta split: option.splits)

lemma main_iter_exit: "exitKey t \<Longrightarrow> \<not> ksExit s \<Longrightarrow> \<not> g_running (main_iter t s)"
  by (simp add: main_iter_def show_frame_running poll_keys_def poll_def pump_messages_def
      Let_def)

lemma normal_run_releases_everything:
  "\<exists>wd. main (session_env all_ok [Iterate exit_tick]) = Some (0, wd) \<and> live wd = []"
proof -
  let ?e = "session_env all_ok [Iterate exit_tick]"
  have ns: "no_stray_messages (init_env ?e)"
    by (simp add: session_env_def no_stray_messages_def all_ok_def)
  have x: "exitKey exit_tick"
    by (simp add: exit_tick_def)
  have "\<exists>wd. main ?e = Some (0, wd)"
    using main_iter_exit [OF x]
    by (simp add: main_def case_prod_beta Let_def session_env_def init_all_ok_fst)
  then obtain wd where m: "main ?e = Some (0, wd)" ..
  from main_normal_exit [OF ns m] m show ?thesis by blast
qed

text \<open>
  Claim C8, on the code. When \<^verbatim>\<open>CreateSwapChainForHwnd\<close> fails, \<^verbatim>\<open>init\<close> returns false
  holding the device and its context, and \<^verbatim>\<open>main\<close> returns 1 after stopping the capture
  stream only: at exit the process still holds the context (7), the device (6), the
  window (5), the COM initialisation (1) and the MMCSS registration of the main thread
  (0). None of them is among the releases made. A run in which every call succeeds and
  the exit key is pressed returns 0 and leaves nothing held.
\<close>

theorem C8_init_failure_keeps_references:
  "map_option fst (main (session_env swap_fails [])) = Some 1
   \<and> map_option (live \<circ> snd) (main (session_env swap_fails [])) = Some [7, 6, 5, 1, 0]
   \<and> map_option (calls \<circ> snd) (main (session_env swap_fails []))
      = Some [Release 9, Release 8, Release 11, Cerr CreateSwapChainFailed, Release 10,
              Cerr DX11InitFailed, Release 4, Release 3, Release 2]
   \<and> map_option fst (main (session_env all_ok [Iterate exit_tick])) = Some 0
   \<and> map_option (live \<circ> snd) (main (session_env all_ok [Iterate exit_tick])) = Some []"
proof -
  have fail: "map_option fst (main (session_env swap_fails [])) = Some 1
   \<and> map_option (live \<circ> snd) (main (session_env swap_fails [])) = Some [7, 6, 5, 1, 0]
   \<and> map_option (calls \<circ> snd) (main (session_env swap_fails []))
      = Some [Release 9, Release 8, Release 11, Cerr CreateSwapChainFailed, Release 10,
              Cerr DX11InitFailed, Release 4, Release 3, Release 2]"
    by (simp add: main_def enter_def open_session_def session_env_def Let_def case_prod_beta
        acquire_push acquire_if_push push_sel release_ref_sel emit_sel stop_def release_opt_def
        init_swapchain_failure init_swapchain_failure_calls swap_fails_sel new_World_def)
  from normal_run_releases_everything obtain wd
    where "main (session_env all_ok [Iterate exit_tick]) = Some (0, wd)" and "live wd = []"
    by blast
  with fail show ?thesis by simp
qed

end
